theory Spec2Isabelle
  imports Complex_Main
begin

section \<open>Conventions of the embedding\<close>

text \<open>
  The development embeds the deterministic tetrahedral-mesh solver
  \<^verbatim>\<open>steps::tetode::TetODE\<close> (its member functions and \<^verbatim>\<open>f_cvode\<close>, whose text the source
  tree carries in \<^verbatim>\<open>cpp/geom/doxygen.hpp\<close>) and the structures of \<^verbatim>\<open>cpp/tetode/tetode.hpp\<close>.

  \<^item> A C++ \<^verbatim>\<open>double\<close> (and CVODE's \<^verbatim>\<open>realtype\<close>) is a \<^typ>\<open>real\<close>: every statement
    below is about exact arithmetic, not about rounding.
  \<^item> A \<^verbatim>\<open>uint\<close> index or counter is a \<^typ>\<open>nat\<close>. The slot sums of the count operations
    and of the diffusion loops are sums of non-negative terms that the statements bound
    by the length of the vector they index, so no partial sum wraps. Everything else
    that is computed in \<^verbatim>\<open>uint\<close> (the cumulative counters of \<^verbatim>\<open>_setup\<close>, the process ids and
    the process-id marker, the markers of the rate-constant operations) has its
    reduction modulo \<open>2 ^ 32\<close> written out.
  \<^item> A \<^verbatim>\<open>std::vector\<close> and an \<^verbatim>\<open>N_Vector\<close> are lists. Indexing past the end is undefined
    behaviour in C++; the statements assume the indices in range, as the \<^verbatim>\<open>assert\<close>s of
    the source do.
  \<^item> A pointer to an element (\<^verbatim>\<open>Tet *\<close>, \<^verbatim>\<open>Tri *\<close>) is an \<open>option\<close>: \<open>None\<close> is the null
    pointer. A pointer to a neighbouring element is the global index of that element.
  \<^item> An exception is a value of type \<open>error\<close>, with the text of its message (without
    the numbers streamed into it and the final newline). A failed \<^verbatim>\<open>assert\<close> stops the
    program; it is the value \<open>AssertFailed\<close>.
  \<^item> The C++ member names start with an underscore, which an Isabelle name cannot; the
    underscore is dropped and the class name put in front.
\<close>

datatype error = ArgErr string | SysErr string | NotImplErr string | AssertFailed

type_synonym 'a except = "error + 'a"

section \<open>The process structures of \<^verbatim>\<open>tetode.hpp\<close>\<close>

record structC =
  order :: nat
  spec_idx :: nat

record structB =
  info :: "structC list"

record structA =
  ccst :: real
  r_idx :: nat
  upd :: int
  players :: "structB list"

type_synonym matrixsub = "structA list list"

section \<open>Scaled reaction constants\<close>

definition int_of_uint :: "nat \<Rightarrow> int" where
  \<comment> \<open>\<^verbatim>\<open>static_cast<int>(order)\<close> of a 32-bit unsigned value\<close>
  "int_of_uint u = (if u < 2 ^ 31 then int u else int u - 2 ^ 32)"

definition TetODE_ccst :: "real \<Rightarrow> real \<Rightarrow> real \<Rightarrow> nat \<Rightarrow> real" where
  \<comment> \<open>\<^verbatim>\<open>TetODE::_ccst\<close>; the first argument is \<^verbatim>\<open>steps::math::AVOGADRO\<close>, a constant of
      \<^verbatim>\<open>math/constants.hpp\<close>\<close>
  "TetODE_ccst AVOGADRO kcst vol ord =
     (let vscale = 1000 * vol * AVOGADRO;
          o1 = int_of_uint ord - 1
      in kcst * (vscale powi (- o1)))"

definition TetODE_ccst2D :: "real \<Rightarrow> real \<Rightarrow> real \<Rightarrow> nat \<Rightarrow> real" where
  \<comment> \<open>\<^verbatim>\<open>TetODE::_ccst2D\<close>\<close>
  "TetODE_ccst2D AVOGADRO kcst area ord =
     (let vscale = area * AVOGADRO;
          o1 = int_of_uint ord - 1
      in kcst * (vscale powi (- o1)))"

section \<open>The right-hand side \<^verbatim>\<open>f_cvode\<close>\<close>

definition player_step :: "real list \<Rightarrow> real \<Rightarrow> structC \<Rightarrow> real" where
  \<comment> \<open>body of the loop over \<^verbatim>\<open>(*p).info\<close>\<close>
  "player_step y dydt_r q =
     (let val = y ! spec_idx q;
          ord = order q
      in if ord = 1 then dydt_r * val else dydt_r * val ^ ord)"

definition reac_dydt :: "real list \<Rightarrow> structA \<Rightarrow> real" where
  \<comment> \<open>\<^verbatim>\<open>dydt_r\<close> after the loops over \<^verbatim>\<open>(*r).players\<close> and their \<^verbatim>\<open>info\<close>\<close>
  "reac_dydt y r =
     foldl (\<lambda>dydt_r p. foldl (player_step y) dydt_r (info p))
       (of_int (upd r) * ccst r) (players r)"

definition spec_dydt :: "real list \<Rightarrow> structA list \<Rightarrow> real" where
  \<comment> \<open>\<^verbatim>\<open>dydt\<close> after the loop over the processes of one slot\<close>
  "spec_dydt y sp = foldl (\<lambda>dydt r. dydt + reac_dydt y r) 0 sp"

fun f_cvode_loop :: "real list \<Rightarrow> matrixsub \<Rightarrow> nat \<Rightarrow> real list \<Rightarrow> real list" where
  "f_cvode_loop y [] i ydot = ydot"
| "f_cvode_loop y (sp # sps) i ydot =
     f_cvode_loop y sps (Suc i) (ydot[i := spec_dydt y sp])"

definition f_cvode ::
  "matrixsub \<Rightarrow> real \<Rightarrow> real list \<Rightarrow> real list \<Rightarrow> int \<times> matrixsub \<times> real list \<times> real list" where
  \<comment> \<open>The three memory objects the function can reach (the global \<^verbatim>\<open>pSpec_matrixsub\<close>,
      \<^verbatim>\<open>y\<close> and \<^verbatim>\<open>ydot\<close>) are passed in and handed back next to the return value.\<close>
  "f_cvode pSpec_matrixsub t y ydot =
     (0, pSpec_matrixsub, y, f_cvode_loop y pSpec_matrixsub 0 ydot)"

section \<open>Operations the solver does not implement\<close>

definition TetODE_reset :: "unit except" where
  "TetODE_reset = Inl (NotImplErr ''reset() not implemented for steps::solver::TetODE solver'')"

definition TetODE_getCompClamped :: "nat \<Rightarrow> nat \<Rightarrow> bool except" where
  "TetODE_getCompClamped cidx sidx = Inl (NotImplErr [])"

definition TetODE_setCompClamped :: "nat \<Rightarrow> nat \<Rightarrow> bool \<Rightarrow> unit except" where
  "TetODE_setCompClamped cidx sidx b = Inl (NotImplErr [])"

definition TetODE_getPatchClamped :: "nat \<Rightarrow> nat \<Rightarrow> bool except" where
  "TetODE_getPatchClamped pidx sidx = Inl (NotImplErr [])"

definition TetODE_setPatchClamped :: "nat \<Rightarrow> nat \<Rightarrow> bool \<Rightarrow> unit except" where
  "TetODE_setPatchClamped pidx sidx buf = Inl (NotImplErr [])"

definition TetODE_getCompReacActive :: "nat \<Rightarrow> nat \<Rightarrow> bool except" where
  \<comment> \<open>the body is \<^verbatim>\<open>return true;\<close>\<close>
  "TetODE_getCompReacActive cidx ridx = Inr True"

definition TetODE_setCompReacActive :: "nat \<Rightarrow> nat \<Rightarrow> bool \<Rightarrow> unit except" where
  "TetODE_setCompReacActive cidx ridx a = Inl (NotImplErr [])"

definition TetODE_getPatchSReacActive :: "nat \<Rightarrow> nat \<Rightarrow> bool except" where
  "TetODE_getPatchSReacActive pidx ridx = Inl (NotImplErr [])"

definition TetODE_setPatchSReacActive :: "nat \<Rightarrow> nat \<Rightarrow> bool \<Rightarrow> unit except" where
  "TetODE_setPatchSReacActive pidx ridx a = Inl (NotImplErr [])"

section \<open>Model definitions and mesh elements\<close>

text \<open>
  The classes \<^verbatim>\<open>Compdef\<close>, \<^verbatim>\<open>Patchdef\<close>, \<^verbatim>\<open>SReacdef\<close>, \<^verbatim>\<open>Statedef\<close> of \<^verbatim>\<open>cpp/solver\<close> and
  \<^verbatim>\<open>Tet\<close>, \<^verbatim>\<open>Comp\<close>, \<^verbatim>\<open>Patch\<close> of \<^verbatim>\<open>cpp/tetode\<close> are used by the solver through their
  accessors only. Each is a record with one field per accessor the embedded code calls;
  an accessor with arguments is a function field. \<^verbatim>\<open>LIDX_UNDEFINED\<close> is \<open>None\<close>. The objects
  are immutable once set up, so an object reached through a pointer is held by value.
\<close>

record Compdef =
  cd_gidx :: nat
  cd_countSpecs :: nat
  cd_countReacs :: nat
  cd_countDiffs :: nat
  cd_specG2L :: "nat \<Rightarrow> nat option"
  cd_reacG2L :: "nat \<Rightarrow> nat option"
  cd_reac_order :: "nat \<Rightarrow> nat"  \<comment> \<open>\<^verbatim>\<open>reacdef(lridx)->order()\<close>\<close>
  cd_diff_dep :: "nat \<Rightarrow> nat \<Rightarrow> bool"  \<comment> \<open>\<^verbatim>\<open>diff_dep(j, k)\<close> is non-zero\<close>
  cd_dcst :: "nat \<Rightarrow> real"

record SReacdef =
  sr_surf_surf :: bool
  sr_inside :: bool
  sr_order :: nat
  sr_reqInside :: bool
  sr_reqOutside :: bool

record Patchdef =
  pd_gidx :: nat
  pd_countSpecs :: nat
  pd_countSpecs_I :: nat
  pd_countSpecs_O :: nat
  pd_countSReacs :: nat
  pd_countSurfDiffs :: nat
  pd_specG2L :: "nat \<Rightarrow> nat option"
  pd_sreacG2L :: "nat \<Rightarrow> nat option"
  pd_sreacdef :: "nat \<Rightarrow> SReacdef"
  pd_has_icompdef :: bool  \<comment> \<open>\<^verbatim>\<open>icompdef() != 0\<close>\<close>
  pd_has_ocompdef :: bool  \<comment> \<open>\<^verbatim>\<open>ocompdef() != 0\<close>\<close>

record Statedef =
  sd_time :: real
  sd_compdefs :: "Compdef list"
  sd_patchdefs :: "Patchdef list"
  sd_countSpecs :: nat
  sd_countReacs :: nat
  sd_countSReacs :: nat

record Tet =
  tet_idx :: nat
  tet_compdef :: Compdef
  tet_vol :: real
  tet_area :: "nat \<Rightarrow> real"
  tet_dist :: "nat \<Rightarrow> real"
  tet_nextTet :: "nat \<Rightarrow> nat option"  \<comment> \<open>\<^verbatim>\<open>nextTet(l)\<close>, as the neighbour's \<^verbatim>\<open>idx()\<close>\<close>

record Tri =
  tri_idx :: nat
  tri_patchdef :: Patchdef
  tri_area :: real
  tri_iTet :: "Tet option"
  tri_oTet :: "Tet option"

record Comp =
  comp_def :: Compdef
  comp_tets :: "Tet list"  \<comment> \<open>\<^verbatim>\<open>getTet(i)\<close>, \<^verbatim>\<open>bgnTet()\<close> .. \<^verbatim>\<open>endTet()\<close>\<close>
  comp_vol :: real
  comp_getTet_GtoL :: "nat \<Rightarrow> nat"

record Patch =
  patch_def :: Patchdef
  patch_tris :: "Tri list"
  patch_area :: real
  patch_getTri_GtoL :: "nat \<Rightarrow> nat"

definition countComps :: "Statedef \<Rightarrow> nat" where
  "countComps sd = length (sd_compdefs sd)"

definition countPatches :: "Statedef \<Rightarrow> nat" where
  "countPatches sd = length (sd_patchdefs sd)"

definition compdef :: "Statedef \<Rightarrow> nat \<Rightarrow> Compdef" where
  "compdef sd i = sd_compdefs sd ! i"

definition patchdef :: "Statedef \<Rightarrow> nat \<Rightarrow> Patchdef" where
  "patchdef sd i = sd_patchdefs sd ! i"

definition countTets :: "Comp \<Rightarrow> nat" where
  "countTets c = length (comp_tets c)"

definition getTet :: "Comp \<Rightarrow> nat \<Rightarrow> Tet" where
  "getTet c i = comp_tets c ! i"

definition countTris :: "Patch \<Rightarrow> nat" where
  "countTris p = length (patch_tris p)"

definition getTri :: "Patch \<Rightarrow> nat \<Rightarrow> Tri" where
  "getTri p i = patch_tris p ! i"

section \<open>Unsigned 32-bit arithmetic\<close>

definition u32 :: "nat \<Rightarrow> nat" where
  "u32 x = x mod 2 ^ 32"

definition usub32 :: "nat \<Rightarrow> nat \<Rightarrow> nat" where
  \<comment> \<open>\<^verbatim>\<open>a - b\<close> on \<^verbatim>\<open>uint\<close>\<close>
  "usub32 a b = (a + 2 ^ 32 - b mod 2 ^ 32) mod 2 ^ 32"

section \<open>Setup: sizes, vectors and the volume diffusion processes\<close>

text \<open>
  \<^verbatim>\<open>_setup\<close> is embedded in the parts the statements below are about: the two loops that
  accumulate \<^verbatim>\<open>pSpecs_tot\<close> and \<^verbatim>\<open>pReacs_tot\<close>, the allocation of the graph and of the two
  CVODE vectors, and the volume diffusion loops of one compartment, which start from the
  graph and the marker \<^verbatim>\<open>reac_gidx\<close> that the reaction loops of that compartment leave.
\<close>

definition totals_comp :: "Comp \<Rightarrow> nat \<times> nat \<Rightarrow> nat \<times> nat" where
  \<comment> \<open>body of the loop over \<^verbatim>\<open>pComps\<close> that accumulates \<^verbatim>\<open>pSpecs_tot\<close> and \<^verbatim>\<open>pReacs_tot\<close>\<close>
  "totals_comp = (\<lambda>comp (pSpecs_tot, pReacs_tot).
     (let comp_specs = cd_countSpecs (comp_def comp);
          pSpecs_tot = u32 (pSpecs_tot + u32 (comp_specs * countTets comp));
          comp_reacs = cd_countReacs (comp_def comp);
          comp_diffs = cd_countDiffs (comp_def comp);
          pReacs_tot = u32 (pReacs_tot + u32 (u32 (comp_reacs + comp_diffs) * countTets comp))
      in (pSpecs_tot, pReacs_tot)))"

definition totals_patch :: "Patch \<Rightarrow> nat \<times> nat \<Rightarrow> nat \<times> nat" where
  \<comment> \<open>body of the loop over \<^verbatim>\<open>pPatches\<close>\<close>
  "totals_patch = (\<lambda>patch (pSpecs_tot, pReacs_tot).
     (let patch_specs = pd_countSpecs (patch_def patch);
          pSpecs_tot = u32 (pSpecs_tot + u32 (patch_specs * countTris patch));
          patch_sreacs = pd_countSReacs (patch_def patch);
          patch_sdiffs = pd_countSurfDiffs (patch_def patch);
          pReacs_tot = u32 (pReacs_tot + u32 (u32 (patch_sreacs + patch_sdiffs) * countTris patch))
      in (pSpecs_tot, pReacs_tot)))"

definition setup_totals :: "Comp list \<Rightarrow> Patch list \<Rightarrow> nat \<times> nat" where
  \<comment> \<open>\<^verbatim>\<open>pSpecs_tot\<close> and \<^verbatim>\<open>pReacs_tot\<close> as \<^verbatim>\<open>_setup\<close> computes them\<close>
  "setup_totals comps patches = fold totals_patch patches (fold totals_comp comps (0, 0))"

definition N_VNew_Serial :: "nat \<Rightarrow> real list" where
  \<comment> \<open>a fresh vector of the given length; its contents are not initialised by the
      library and every entry is written before it is read\<close>
  "N_VNew_Serial n = replicate n 0"

definition setup_matrixsub :: "nat \<Rightarrow> matrixsub" where
  "setup_matrixsub pSpecs_tot = replicate pSpecs_tot []"

definition setup_vectors :: "nat \<Rightarrow> real list \<times> real list" where
  \<comment> \<open>\<^verbatim>\<open>y_cvode\<close> and \<^verbatim>\<open>abstol_cvode\<close> as \<^verbatim>\<open>_setup\<close> allocates and fills them\<close>
  "setup_vectors pSpecs_tot =
     (let y_cvode = N_VNew_Serial pSpecs_tot;
          abstol_cvode = N_VNew_Serial pSpecs_tot;
          abstol_cvode = fold (\<lambda>i v. v[i := 1 / 1000]) [0..<pSpecs_tot] abstol_cvode;
          y_cvode = fold (\<lambda>i v. v[i := 0]) [0..<pSpecs_tot] y_cvode
      in (y_cvode, abstol_cvode))"

definition push_back_at :: "matrixsub \<Rightarrow> nat \<Rightarrow> structA \<Rightarrow> matrixsub" where
  \<comment> \<open>\<^verbatim>\<open>pSpec_matrixsub[i].push_back(a)\<close>\<close>
  "push_back_at G i a = G[i := G ! i @ [a]]"

definition spec_base_of :: "Statedef \<Rightarrow> Comp list \<Rightarrow> nat \<Rightarrow> nat" where
  \<comment> \<open>the loop \<^verbatim>\<open>for (m = 0; m < i; ++m) idx += compdef(m)->countSpecs() * pComps[m]->countTets()\<close>\<close>
  "spec_base_of sd comps i =
     fold (\<lambda>m idx. idx + cd_countSpecs (compdef sd m) * countTets (comps ! m)) [0..<i] 0"

definition diff_direction ::
  "Statedef \<Rightarrow> Comp list \<Rightarrow> nat \<Rightarrow> nat \<Rightarrow> nat \<Rightarrow> nat \<Rightarrow> nat \<Rightarrow> nat \<Rightarrow> matrixsub \<Rightarrow> matrixsub" where
  \<comment> \<open>body of the loop over the four directions \<open>l\<close>, for compartment \<open>i\<close>, local tet \<open>t\<close>,
      diffusion rule \<open>j\<close> and species \<open>k\<close>\<close>
  "diff_direction sd comps i reac_gidx t j k l G =
     (let comp = comps ! i;
          cdef = comp_def comp;
          compSpecs_N = cd_countSpecs cdef;
          tet_base = getTet comp t;
          dcst = cd_dcst cdef j
      in case tet_nextTet tet_base l of
           None \<Rightarrow> G
         | Some tet_neighb_gidx \<Rightarrow>
             (let dist = tet_dist tet_base l;
                  dccst = (tet_area tet_base l * dcst) / (tet_vol tet_base * dist);
                  spec_base_idx = spec_base_of sd comps i;
                  tet_neighb_lidx = comp_getTet_GtoL comp tet_neighb_gidx;
                  spec_neighb_idx = spec_base_idx + (compSpecs_N * tet_neighb_lidx) + k;
                  spec_base_idx = spec_base_idx + (compSpecs_N * t) + k;
                  btmp_out = \<lparr>info = [\<lparr>order = 1, spec_idx = spec_base_idx\<rparr>]\<rparr>;
                  atmp_out = \<lparr>ccst = dccst, r_idx = u32 (reac_gidx + j), upd = -1, players = [btmp_out]\<rparr>;
                  btmp_in = \<lparr>info = [\<lparr>order = 1, spec_idx = spec_base_idx\<rparr>]\<rparr>;
                  atmp_in = \<lparr>ccst = dccst, r_idx = u32 (reac_gidx + j), upd = 1, players = [btmp_in]\<rparr>;
                  G = push_back_at G spec_base_idx atmp_out;
                  G = push_back_at G spec_neighb_idx atmp_in
              in G))"

definition setup_comp_diffs ::
  "Statedef \<Rightarrow> Comp list \<Rightarrow> nat \<Rightarrow> matrixsub \<times> nat \<Rightarrow> matrixsub \<times> nat" where
  \<comment> \<open>the diffusion loops of \<^verbatim>\<open>_setup\<close> for compartment \<open>i\<close>; the state is
      \<^verbatim>\<open>pSpec_matrixsub\<close> and the marker \<^verbatim>\<open>reac_gidx\<close>\<close>
  "setup_comp_diffs sd comps i =
     (let comp = comps ! i;
          cdef = comp_def comp;
          compSpecs_N = cd_countSpecs cdef;
          compTets_N = countTets comp;
          compDiffs_N = cd_countDiffs cdef
      in fold (\<lambda>t (G, reac_gidx).
           (fold (\<lambda>j. fold (\<lambda>k G.
                     if cd_diff_dep cdef j k
                     then fold (diff_direction sd comps i reac_gidx t j k) [0..<4] G
                     else G)
                   [0..<compSpecs_N])
              [0..<compDiffs_N] G,
            u32 (reac_gidx + compDiffs_N)))
         [0..<compTets_N])"

section \<open>The diffusion processes in the words of the specification\<close>


definition tet_slot :: "Statedef \<Rightarrow> Comp list \<Rightarrow> nat \<Rightarrow> nat \<Rightarrow> nat \<Rightarrow> nat" where
  \<comment> \<open>position in \<open>y\<close> and in the graph of local species \<open>k\<close> in local tet \<open>t\<close> of compartment \<open>i\<close>,
      by the layout of the specification\<close>
  "tet_slot sd comps i t k =
     (\<Sum>m<i. cd_countSpecs (compdef sd m) * countTets (comps ! m)) +
     cd_countSpecs (comp_def (comps ! i)) * t + k"

definition diff_process :: "real \<Rightarrow> nat \<Rightarrow> int \<Rightarrow> nat \<Rightarrow> structA" where
  \<comment> \<open>a first-order process with coefficient \<open>c\<close>, process id \<open>rid\<close>, update \<open>u\<close> and the single
      reactant descriptor \<open>(1, donor)\<close>\<close>
  "diff_process c rid u donor =
     \<lparr>ccst = c, r_idx = rid, upd = u, players = [\<lparr>info = [\<lparr>order = 1, spec_idx = donor\<rparr>]\<rparr>]\<rparr>"

definition diff_pair ::
  "Statedef \<Rightarrow> Comp list \<Rightarrow> nat \<Rightarrow> nat \<Rightarrow> nat \<Rightarrow> nat \<Rightarrow> nat \<Rightarrow> nat \<Rightarrow> nat \<Rightarrow> structA list" where
  \<comment> \<open>what the specification has slot \<open>s\<close> receive for the ordered pair made of local tet \<open>t\<close> of
      compartment \<open>i\<close> and its neighbour through face \<open>l\<close>, for diffusion rule \<open>j\<close> of species \<open>k\<close>
      with process id \<open>rid\<close>: the process with update \<open>-1\<close> at the donor slot and the process
      with update \<open>+1\<close> at the acceptor slot, both with the conductance
      \<open>area * D / (vol * dist)\<close> and the donor slot as their only reactant\<close>
  "diff_pair sd comps i rid t j k l s =
     (let T = getTet (comps ! i) t
      in case tet_nextTet T l of
           None \<Rightarrow> []
         | Some T' \<Rightarrow>
             (let d_cond = tet_area T l * cd_dcst (comp_def (comps ! i)) j / (tet_vol T * tet_dist T l);
                  donor = tet_slot sd comps i t k;
                  acceptor = tet_slot sd comps i (comp_getTet_GtoL (comps ! i) T') k
              in (if s = donor then [diff_process d_cond rid (-1) donor] else []) @
                 (if s = acceptor then [diff_process d_cond rid 1 donor] else [])))"


definition diff_appended_tet ::
  "Statedef \<Rightarrow> Comp list \<Rightarrow> nat \<Rightarrow> nat \<Rightarrow> nat \<Rightarrow> nat \<Rightarrow> structA list" where
  \<comment> \<open>what slot \<open>s\<close> receives from local tet \<open>t\<close> of compartment \<open>i\<close>: for each diffusion rule
      \<open>j\<close> (process id \<open>rid0 + j\<close> in \<^verbatim>\<open>uint\<close>), for the species \<open>k\<close> it depends on, one pair
      per face\<close>
  "diff_appended_tet sd comps i rid0 t s =
     concat (map (\<lambda>j.
       concat (map (\<lambda>k.
         if cd_diff_dep (comp_def (comps ! i)) j k
         then concat (map (\<lambda>l. diff_pair sd comps i (u32 (rid0 + j)) t j k l s) [0..<4])
         else [])
       [0..<cd_countSpecs (comp_def (comps ! i))]))
     [0..<cd_countDiffs (comp_def (comps ! i))])"

section \<open>A small configuration\<close>

text \<open>
  One compartment of two tetrahedra that face each other, with two species, one
  second-order reaction and one diffusion rule for species 0; one patch of one triangle
  on tetrahedron 0 with one surface species and one surface reaction.
\<close>

definition ex_cdef :: Compdef where
  "ex_cdef = \<lparr>cd_gidx = 0, cd_countSpecs = 2, cd_countReacs = 1, cd_countDiffs = 1,
     cd_specG2L = (\<lambda>g. if g < 2 then Some g else None),
     cd_reacG2L = (\<lambda>g. if g = 0 then Some 0 else None),
     cd_reac_order = (\<lambda>_. 2),
     cd_diff_dep = (\<lambda>j k. j = 0 \<and> k = 0),
     cd_dcst = (\<lambda>_. 3)\<rparr>"

definition ex_tet0 :: Tet where
  "ex_tet0 = \<lparr>tet_idx = 0, tet_compdef = ex_cdef, tet_vol = 2, tet_area = (\<lambda>_. 4),
     tet_dist = (\<lambda>_. 3), tet_nextTet = (\<lambda>l. if l = 0 then Some 1 else None)\<rparr>"

definition ex_tet1 :: Tet where
  "ex_tet1 = \<lparr>tet_idx = 1, tet_compdef = ex_cdef, tet_vol = 6, tet_area = (\<lambda>_. 4),
     tet_dist = (\<lambda>_. 3), tet_nextTet = (\<lambda>l. if l = 2 then Some 0 else None)\<rparr>"

definition ex_comp :: Comp where
  "ex_comp = \<lparr>comp_def = ex_cdef, comp_tets = [ex_tet0, ex_tet1], comp_vol = 8,
     comp_getTet_GtoL = (\<lambda>g. g)\<rparr>"

definition ex_pdef :: Patchdef where
  "ex_pdef = \<lparr>pd_gidx = 0, pd_countSpecs = 1, pd_countSpecs_I = 2, pd_countSpecs_O = 0,
     pd_countSReacs = 1, pd_countSurfDiffs = 0,
     pd_specG2L = (\<lambda>g. if g = 2 then Some 0 else None),
     pd_sreacG2L = (\<lambda>g. if g = 0 then Some 0 else None),
     pd_sreacdef = (\<lambda>_. \<lparr>sr_surf_surf = False, sr_inside = True, sr_order = 2,
                          sr_reqInside = True, sr_reqOutside = False\<rparr>),
     pd_has_icompdef = True, pd_has_ocompdef = False\<rparr>"

definition ex_tri :: Tri where
  "ex_tri = \<lparr>tri_idx = 0, tri_patchdef = ex_pdef, tri_area = 5,
     tri_iTet = Some ex_tet0, tri_oTet = None\<rparr>"

definition ex_patch :: Patch where
  "ex_patch = \<lparr>patch_def = ex_pdef, patch_tris = [ex_tri], patch_area = 5,
     patch_getTri_GtoL = (\<lambda>g. g)\<rparr>"

definition ex_sd :: Statedef where
  "ex_sd = \<lparr>sd_time = 0, sd_compdefs = [ex_cdef], sd_patchdefs = [ex_pdef],
     sd_countSpecs = 3, sd_countReacs = 1, sd_countSReacs = 1\<rparr>"

section \<open>The integrator library\<close>

text \<open>
  CVODE is an external library. Its memory block \<^verbatim>\<open>cvode_mem_cvode\<close> is modelled by the list
  of the calls made on it so far, each with the arguments it was given (for \<^verbatim>\<open>CVode\<close> also
  the process graph, which the right-hand side \<^verbatim>\<open>f_cvode\<close> reads at that moment). A library
  is any pair of functions from this history, latest call last, to the flag the latest
  call returns and to the vector that a \<^verbatim>\<open>CVode\<close> call leaves in \<^verbatim>\<open>y\<close>.
\<close>

datatype cv_call =
    CVodeSetMaxNumSteps_call nat
  | CVodeSVtolerances_call real "real list"
  | CVodeReInit_call real "real list"
  | CVode_call real "real list" matrixsub

record cvode_lib =
  cv_flag :: "cv_call list \<Rightarrow> int"
  cv_yout :: "cv_call list \<Rightarrow> real list"

definition CV_SUCCESS :: int where
  "CV_SUCCESS = 0"

section \<open>The solver object\<close>

record TetODE =
  statedef :: Statedef
  pComps :: "Comp list"
  pPatches :: "Patch list"
  pTris :: "Tri option list"
  pTets :: "Tet option list"
  pSpec_matrixsub :: matrixsub
  pSpecs_tot :: nat
  pReacs_tot :: nat
  t_cvode :: real
  reltol_cvode :: real
  abstol_cvode :: "real list"
  y_cvode :: "real list"
  cvode_mem_cvode :: "cv_call list"
  pInitialised :: bool
  pTolsset :: bool
  pReinit :: bool
  pNmax_cvode :: nat

text \<open>
  A member function that changes the object returns the outcome together with the
  object as it is when the function returns or throws.
\<close>

type_synonym outcome = "unit except \<times> TetODE"

definition throws :: "error \<Rightarrow> TetODE \<Rightarrow> outcome" where
  "throws e s = (Inl e, s)"

definition returns :: "TetODE \<Rightarrow> outcome" where
  "returns s = (Inr (), s)"

definition and_then :: "outcome \<Rightarrow> (TetODE \<Rightarrow> outcome) \<Rightarrow> outcome" where
  \<comment> \<open>the statements after a call: skipped when the call throws\<close>
  "and_then r f = (case r of (Inl e, s) \<Rightarrow> (Inl e, s) | (Inr _, s) \<Rightarrow> f s)"

section \<open>Time integration\<close>

definition check_flag :: "int \<Rightarrow> TetODE \<Rightarrow> outcome" where
  \<comment> \<open>\<^verbatim>\<open>check_flag(&flag, name, 1)\<close>\<close>
  "check_flag flag s =
     (if flag < 0 then throws (SysErr ''SUNDIALS_ERROR: %s() failed with flag = %d'') s
      else returns s)"

definition cvode_call :: "cvode_lib \<Rightarrow> cv_call \<Rightarrow> TetODE \<Rightarrow> int \<times> TetODE" where
  "cvode_call cv c s =
     (let mem = cvode_mem_cvode s @ [c]
      in (cv_flag cv mem, s\<lparr>cvode_mem_cvode := mem\<rparr>))"

definition run_initialise :: "cvode_lib \<Rightarrow> TetODE \<Rightarrow> outcome" where
  \<comment> \<open>the block \<^verbatim>\<open>if (not pInitialised) { ... }\<close> of \<^verbatim>\<open>run\<close>; the warning it may print is
      not modelled\<close>
  "run_initialise cv s =
     (if \<not> pInitialised s
      then (let (flag, s) = cvode_call cv (CVodeSetMaxNumSteps_call (pNmax_cvode s)) s
            in and_then (check_flag flag s) (\<lambda>s.
                 let (flag, s) = cvode_call cv
                       (CVodeSVtolerances_call (reltol_cvode s) (abstol_cvode s)) s
                 in and_then (check_flag flag s) (\<lambda>s.
                      returns (s\<lparr>pInitialised := True\<rparr>))))
      else returns s)"

definition run_reinit :: "cvode_lib \<Rightarrow> TetODE \<Rightarrow> outcome" where
  \<comment> \<open>the block \<^verbatim>\<open>if (pReinit) { ... }\<close> of \<^verbatim>\<open>run\<close>\<close>
  "run_reinit cv s =
     (if pReinit s
      then (let starttime = sd_time (statedef s);
                (flag, s) = cvode_call cv (CVodeReInit_call starttime (y_cvode s)) s
            in and_then (check_flag flag s) (\<lambda>s.
                 returns (s\<lparr>pReinit := False\<rparr>)))
      else returns s)"

definition run_advance :: "cvode_lib \<Rightarrow> real \<Rightarrow> TetODE \<Rightarrow> outcome" where
  \<comment> \<open>the call of \<^verbatim>\<open>CVode\<close>, which overwrites \<^verbatim>\<open>y_cvode\<close>, and the end of \<^verbatim>\<open>run\<close>\<close>
  "run_advance cv endtime s =
     (let (flag, s) = cvode_call cv (CVode_call endtime (y_cvode s) (pSpec_matrixsub s)) s;
          s = s\<lparr>y_cvode := cv_yout cv (cvode_mem_cvode s)\<rparr>
      in if flag \<noteq> CV_SUCCESS
         then throws (SysErr ''CVODE iteration failed'') s
         else returns (s\<lparr>statedef := (statedef s)\<lparr>sd_time := endtime\<rparr>\<rparr>))"

definition TetODE_run :: "cvode_lib \<Rightarrow> real \<Rightarrow> TetODE \<Rightarrow> outcome" where
  "TetODE_run cv endtime s =
     (if endtime < sd_time (statedef s)
      then throws (ArgErr ''Endtime is before current simulation time'') s
      else if endtime = 0 then returns s
      else and_then (run_initialise cv s) (\<lambda>s.
           and_then (run_reinit cv s) (\<lambda>s.
           run_advance cv endtime s)))"

section \<open>Checkpoint restore\<close>




text \<open>
  The stream is the doubles not yet read and its state: \<open>True\<close> while every read so far
  has been served in full. \<^verbatim>\<open>cp_file.read\<close> of \<open>n\<close> doubles into the data of a vector stores
  the doubles it gets at the front of the vector and leaves the rest of the vector as it
  is; when the file ends before \<open>n\<close> doubles, it stores those there are and the stream
  fails; on a failed stream it reads nothing. (A vector shorter than \<open>n\<close> is written past
  its end, which is undefined in C++; the statements have the vectors of length
  \<^verbatim>\<open>pSpecs_tot\<close>, as setup allocates them.)
\<close>

type_synonym cp_stream = "real list \<times> bool"

definition read_doubles :: "nat \<Rightarrow> real list \<Rightarrow> cp_stream \<Rightarrow> real list \<times> cp_stream" where
  "read_doubles n dst strm =
     (case strm of (rest, good) \<Rightarrow>
        if \<not> good then (dst, (rest, False))
        else if n \<le> length rest then (take n rest @ drop n dst, (drop n rest, True))
        else (rest @ drop (length rest) dst, ([], False)))"




section \<open>The calls of a run in the words of the specification\<close>

definition init_calls :: "TetODE \<Rightarrow> cv_call list" where
  \<comment> \<open>the configuration of the integrator, made by the first run only\<close>
  "init_calls s =
     (if pInitialised s then []
      else [CVodeSetMaxNumSteps_call (pNmax_cvode s),
            CVodeSVtolerances_call (reltol_cvode s) (abstol_cvode s)])"

definition reinit_calls :: "TetODE \<Rightarrow> cv_call list" where
  \<comment> \<open>the reinitialisation at the current time and state, made when it is pending\<close>
  "reinit_calls s =
     (if pReinit s then [CVodeReInit_call (sd_time (statedef s)) (y_cvode s)] else [])"

definition step_call :: "real \<Rightarrow> TetODE \<Rightarrow> cv_call" where
  "step_call endtime s = CVode_call endtime (y_cvode s) (pSpec_matrixsub s)"

definition calls_succeed :: "cvode_lib \<Rightarrow> cv_call list \<Rightarrow> cv_call list \<Rightarrow> bool" where
  \<comment> \<open>no call of \<open>cs\<close>, made in this order after the history \<open>mem\<close>, returns a negative flag\<close>
  "calls_succeed cv mem cs = (\<forall>k<length cs. 0 \<le> cv_flag cv (mem @ take (Suc k) cs))"

definition ex_cv :: cvode_lib where
  \<comment> \<open>a library whose calls all succeed and whose \<^verbatim>\<open>CVode\<close> leaves 1 in every slot\<close>
  "ex_cv = \<lparr>cv_flag = (\<lambda>_. 0), cv_yout = (\<lambda>_. [1, 1, 1, 1, 1])\<rparr>"

definition ex_graph :: matrixsub where
  "ex_graph =
     [[\<lparr>ccst = 7, r_idx = 0, upd = -2, players = [\<lparr>info = [\<lparr>order = 2, spec_idx = 0\<rparr>]\<rparr>]\<rparr>,
       \<lparr>ccst = 2, r_idx = 2, upd = -1, players = [\<lparr>info = [\<lparr>order = 1, spec_idx = 0\<rparr>]\<rparr>]\<rparr>],
      [\<lparr>ccst = 7, r_idx = 0, upd = 1, players = [\<lparr>info = [\<lparr>order = 2, spec_idx = 0\<rparr>]\<rparr>]\<rparr>],
      [\<lparr>ccst = 9, r_idx = 1, upd = -2, players = [\<lparr>info = [\<lparr>order = 2, spec_idx = 2\<rparr>]\<rparr>]\<rparr>,
       \<lparr>ccst = 2, r_idx = 2, upd = 1, players = [\<lparr>info = [\<lparr>order = 1, spec_idx = 0\<rparr>]\<rparr>]\<rparr>],
      [\<lparr>ccst = 9, r_idx = 1, upd = 1, players = [\<lparr>info = [\<lparr>order = 2, spec_idx = 2\<rparr>]\<rparr>]\<rparr>],
      []]"

definition ex_solver :: TetODE where
  \<comment> \<open>the small configuration after setup and one run to time 1\<close>
  "ex_solver = \<lparr>statedef = ex_sd\<lparr>sd_time := 1\<rparr>, pComps = [ex_comp], pPatches = [ex_patch],
     pTris = [Some ex_tri], pTets = [Some ex_tet0, Some ex_tet1],
     pSpec_matrixsub = ex_graph, pSpecs_tot = 5, pReacs_tot = 5,
     t_cvode = 0, reltol_cvode = 1 / 1000,
     abstol_cvode = [1 / 1000, 1 / 1000, 1 / 1000, 1 / 1000, 1 / 1000],
     y_cvode = [10, 20, 30, 40, 50], cvode_mem_cvode = [],
     pInitialised = True, pTolsset = False, pReinit = False, pNmax_cvode = 10000\<rparr>"

section \<open>Species counts\<close>

definition TetODE_getCompCount :: "nat \<Rightarrow> nat \<Rightarrow> TetODE \<Rightarrow> real except" where
  "TetODE_getCompCount cidx sidx s =
     (if \<not> cidx < countComps (statedef s) then Inl AssertFailed
      else if \<not> sidx < sd_countSpecs (statedef s) then Inl AssertFailed
      else
        (let comp = compdef (statedef s) cidx
         in case cd_specG2L comp sidx of
              None \<Rightarrow> Inl (ArgErr ''Species undefined in compartment.'')
            | Some slidx \<Rightarrow>
                (let idx = spec_base_of (statedef s) (pComps s) cidx;
                     comp_nspecs = cd_countSpecs comp;
                     ntets = countTets (pComps s ! cidx)
                 in if \<not> u32 (idx + u32 (u32 (usub32 ntets 1 * comp_nspecs) + slidx))
                          < pSpecs_tot s
                    then Inl AssertFailed
                    else Inr (fold (\<lambda>i count. count + y_cvode s ! (idx + ((i * comp_nspecs) + slidx)))
                                [0..<ntets] 0))))"

definition TetODE_setCompCount :: "nat \<Rightarrow> nat \<Rightarrow> real \<Rightarrow> TetODE \<Rightarrow> outcome" where
  "TetODE_setCompCount cidx sidx n s =
     (if \<not> cidx < countComps (statedef s) then throws AssertFailed s
      else if \<not> sidx < sd_countSpecs (statedef s) then throws AssertFailed s
      else
        (let comp = compdef (statedef s) cidx
         in case cd_specG2L comp sidx of
              None \<Rightarrow> throws (ArgErr ''Species undefined in compartment.'') s
            | Some slidx \<Rightarrow>
                (let idx = spec_base_of (statedef s) (pComps s) cidx;
                     localcomp = pComps s ! cidx;
                     ntets = countTets localcomp;
                     comp_nspecs = cd_countSpecs comp;
                     comp_vol = comp_vol localcomp
                 in if \<not> u32 (idx + u32 (u32 (usub32 ntets 1 * comp_nspecs) + slidx))
                          < pSpecs_tot s
                    then throws AssertFailed s
                    else
                      (let y = fold (\<lambda>i y.
                                 (let tetvol = tet_vol (getTet localcomp i)
                                  in y[idx + ((i * comp_nspecs) + slidx) := n * (tetvol / comp_vol)]))
                               [0..<ntets] (y_cvode s)
                       in returns (s\<lparr>y_cvode := y, pReinit := True\<rparr>)))))"

definition patch_base_of :: "Statedef \<Rightarrow> Comp list \<Rightarrow> Patch list \<Rightarrow> nat \<Rightarrow> nat" where
  \<comment> \<open>the marker after the loop over all compartments and the loop over the patches
      before \<open>pidx\<close>\<close>
  "patch_base_of sd comps patches pidx =
     fold (\<lambda>i idx. idx + pd_countSpecs (patchdef sd i) * countTris (patches ! i)) [0..<pidx]
       (spec_base_of sd comps (length comps))"

definition TetODE_setPatchCount :: "nat \<Rightarrow> nat \<Rightarrow> real \<Rightarrow> TetODE \<Rightarrow> outcome" where
  "TetODE_setPatchCount pidx sidx n s =
     (if \<not> pidx < countPatches (statedef s) then throws AssertFailed s
      else if \<not> sidx < sd_countSpecs (statedef s) then throws AssertFailed s
      else
        (let patch = patchdef (statedef s) pidx
         in case pd_specG2L patch sidx of
              None \<Rightarrow> throws (ArgErr ''Species undefined in patch.'') s
            | Some slidx \<Rightarrow>
                if \<not> spec_base_of (statedef s) (pComps s) (length (pComps s)) < pSpecs_tot s
                then throws AssertFailed s
                else
                  (let idx = patch_base_of (statedef s) (pComps s) (pPatches s) pidx;
                       localpatch = pPatches s ! pidx;
                       patch_nspecs = pd_countSpecs patch;
                       ntris = countTris localpatch
                   in if \<not> u32 (idx + u32 (u32 (usub32 ntris 1 * patch_nspecs) + slidx))
                            < pSpecs_tot s
                      then throws AssertFailed s
                      else
                        (let patch_area = patch_area localpatch;
                             y = fold (\<lambda>i y.
                                   (let triarea = tri_area (getTri localpatch i)
                                    in y[idx + ((i * patch_nspecs) + slidx) := n * (triarea / patch_area)]))
                                 [0..<ntris] (y_cvode s)
                         in returns (s\<lparr>y_cvode := y, pReinit := True\<rparr>)))))"

definition TetODE_setTetCount :: "nat \<Rightarrow> nat \<Rightarrow> real \<Rightarrow> TetODE \<Rightarrow> outcome" where
  "TetODE_setTetCount tidx sidx n s =
     (if \<not> sidx < sd_countSpecs (statedef s) then throws AssertFailed s
      else if \<not> tidx < length (pTets s) then throws AssertFailed s
      else case pTets s ! tidx of
             None \<Rightarrow> throws (ArgErr ''Tetrahedron has not been assigned to a compartment.'') s
           | Some tet \<Rightarrow>
               (let comp = tet_compdef tet;
                    cidx = cd_gidx comp
                in case cd_specG2L comp sidx of
                     None \<Rightarrow> throws (ArgErr ''Species undefined in tetrahedron.'') s
                   | Some lsidx \<Rightarrow>
                       (let localcomp = pComps s ! cidx;
                            tet_lcidx = comp_getTet_GtoL localcomp tidx;
                            idx = spec_base_of (statedef s) (pComps s) cidx
                        in if \<not> u32 (u32 (idx + u32 (cd_countSpecs comp * tet_lcidx)) + lsidx)
                                 < pSpecs_tot s
                           then throws AssertFailed s
                           else returns
                                  (s\<lparr>y_cvode := (y_cvode s)
                                        [idx + (cd_countSpecs comp * tet_lcidx) + lsidx := n],
                                      pReinit := True\<rparr>))))"

definition TetODE_setTriCount :: "nat \<Rightarrow> nat \<Rightarrow> real \<Rightarrow> TetODE \<Rightarrow> outcome" where
  "TetODE_setTriCount tidx sidx n s =
     (if \<not> sidx < sd_countSpecs (statedef s) then throws AssertFailed s
      else if \<not> tidx < length (pTris s) then throws AssertFailed s
      else case pTris s ! tidx of
             None \<Rightarrow> throws (ArgErr ''Triangle has not been assigned to a patch.'') s
           | Some tri \<Rightarrow>
               (let patch = tri_patchdef tri;
                    pidx = pd_gidx patch
                in case pd_specG2L patch sidx of
                     None \<Rightarrow> throws (ArgErr ''Species undefined in triangle.'') s
                   | Some lsidx \<Rightarrow>
                       (let localpatch = pPatches s ! pidx;
                            tri_lpidx = patch_getTri_GtoL localpatch tidx;
                            idx = patch_base_of (statedef s) (pComps s) (pPatches s) pidx
                        in if \<not> u32 (u32 (idx + u32 (pd_countSpecs patch * tri_lpidx)) + lsidx)
                                 < pSpecs_tot s
                           then throws AssertFailed s
                           else returns
                                  (s\<lparr>y_cvode := (y_cvode s)
                                        [idx + (pd_countSpecs patch * tri_lpidx) + lsidx := n],
                                      pReinit := True\<rparr>))))"

section \<open>Rate constants\<close>

definition set_ccst_where :: "nat \<Rightarrow> real \<Rightarrow> structA list \<Rightarrow> structA list" where
  \<comment> \<open>the loop over the processes of one slot: \<^verbatim>\<open>if ((*r).r_idx == reac_idx) (*r).ccst = ccst\<close>\<close>
  "set_ccst_where reac_idx c rs = map (\<lambda>r. if r_idx r = reac_idx then r\<lparr>ccst := c\<rparr> else r) rs"

text \<open>
  The markers \<^verbatim>\<open>spec_idx\<close> and \<^verbatim>\<open>reac_idx\<close> of the rate-constant operations are \<^verbatim>\<open>uint\<close>
  variables: every product, every \<^verbatim>\<open>+=\<close> and the index \<^verbatim>\<open>spec_idx + k\<close> are reduced modulo
  \<open>2 ^ 32\<close>.
\<close>

definition rebind_slots :: "nat \<Rightarrow> nat \<Rightarrow> nat \<Rightarrow> real \<Rightarrow> matrixsub \<Rightarrow> matrixsub" where
  \<comment> \<open>the loop \<^verbatim>\<open>for (k = 0; k < N; ++k)\<close> over the slots \<^verbatim>\<open>spec_idx + k\<close>\<close>
  "rebind_slots = (\<lambda>spec_idx N reac_idx c.
     fold (\<lambda>k G. G[u32 (spec_idx + k) :=
                      set_ccst_where reac_idx c (G ! u32 (spec_idx + k))]) [0..<N])"

definition comp_markers :: "Statedef \<Rightarrow> Comp list \<Rightarrow> nat \<Rightarrow> nat \<times> nat" where
  \<comment> \<open>\<^verbatim>\<open>spec_idx\<close> and \<^verbatim>\<open>reac_idx\<close> after the loop over the compartments before \<open>cidx\<close>\<close>
  "comp_markers sd comps cidx =
     fold (\<lambda>i (spec_idx, reac_idx).
       (let spec_idx = u32 (spec_idx + u32 (cd_countSpecs (compdef sd i) * countTets (comps ! i)));
            reac_idx = u32 (reac_idx + u32 (cd_countReacs (compdef sd i) * countTets (comps ! i)));
            reac_idx = u32 (reac_idx + u32 (cd_countDiffs (compdef sd i) * countTets (comps ! i)))
        in (spec_idx, reac_idx)))
     [0..<cidx] (0, 0)"

definition comp_spec_marker :: "Statedef \<Rightarrow> Comp list \<Rightarrow> nat \<Rightarrow> nat" where
  \<comment> \<open>\<^verbatim>\<open>spec_idx\<close> after the loop over the compartments before \<open>cidx\<close> that steps up the
      species marker alone\<close>
  "comp_spec_marker sd comps cidx =
     fold (\<lambda>i spec_idx.
            u32 (spec_idx + u32 (cd_countSpecs (compdef sd i) * countTets (comps ! i))))
       [0..<cidx] 0"

definition TetODE_setTetReacK :: "real \<Rightarrow> nat \<Rightarrow> nat \<Rightarrow> real \<Rightarrow> TetODE \<Rightarrow> outcome" where
  "TetODE_setTetReacK AVOGADRO tidx ridx kf s =
     (if \<not> tidx < length (pTets s) then throws AssertFailed s
      else if \<not> ridx < sd_countReacs (statedef s) then throws AssertFailed s
      else case pTets s ! tidx of
             None \<Rightarrow> throws (ArgErr ''Tetrahedron has not been assigned to a compartment.'') s
           | Some tet \<Rightarrow>
               (let comp = tet_compdef tet
                in case cd_reacG2L comp ridx of
                     None \<Rightarrow> throws (ArgErr ''Reaction undefined in tetrahedron.'') s
                   | Some lridx \<Rightarrow>
                       (let cidx = cd_gidx (tet_compdef tet);
                            (spec_idx, reac_idx) = comp_markers (statedef s) (pComps s) cidx;
                            compSpecs_N = cd_countSpecs comp;
                            compReacs_N = cd_countReacs comp;
                            tlidx = comp_getTet_GtoL (pComps s ! cidx) tidx;
                            spec_idx = u32 (spec_idx + u32 (compSpecs_N * tlidx));
                            reac_idx = u32 (reac_idx + u32 (compReacs_N * tlidx));
                            reac_idx = u32 (reac_idx + lridx);
                            tet_vol = tet_vol tet;
                            reac_order = cd_reac_order comp lridx;
                            new_ccst = TetODE_ccst AVOGADRO kf tet_vol reac_order
                        in returns
                             (s\<lparr>pSpec_matrixsub :=
                                  rebind_slots spec_idx compSpecs_N reac_idx new_ccst
                                    (pSpec_matrixsub s)\<rparr>))))"

fun setCompReacK_loop :: "real \<Rightarrow> Tet list \<Rightarrow> nat \<Rightarrow> real \<Rightarrow> TetODE \<Rightarrow> outcome" where
  "setCompReacK_loop AVOGADRO [] ridx kf s = returns s"
| "setCompReacK_loop AVOGADRO (tet # tets) ridx kf s =
     and_then (TetODE_setTetReacK AVOGADRO (tet_idx tet) ridx kf s)
       (setCompReacK_loop AVOGADRO tets ridx kf)"

definition TetODE_setCompReacK :: "real \<Rightarrow> nat \<Rightarrow> nat \<Rightarrow> real \<Rightarrow> TetODE \<Rightarrow> outcome" where
  "TetODE_setCompReacK AVOGADRO cidx ridx kf s =
     (if \<not> cidx < countComps (statedef s) then throws AssertFailed s
      else if \<not> countComps (statedef s) = length (pComps s) then throws AssertFailed s
      else setCompReacK_loop AVOGADRO (comp_tets (pComps s ! cidx)) ridx kf s)"

definition sreac_ccst :: "real \<Rightarrow> real \<Rightarrow> Tri \<Rightarrow> Patchdef \<Rightarrow> nat \<Rightarrow> real except" where
  \<comment> \<open>the block of \<^verbatim>\<open>_setTriSReacK\<close> under ``Calculate the reaction constant''\<close>
  "sreac_ccst AVOGADRO kf tri patch lsridx =
     (if sr_surf_surf (pd_sreacdef patch lsridx) = False
      then
        (if sr_inside (pd_sreacdef patch lsridx) = True
         then
           (if \<not> pd_has_icompdef patch then Inl AssertFailed
            else case tri_iTet tri of
                   None \<Rightarrow> Inl AssertFailed
                 | Some itet \<Rightarrow>
                     Inr (TetODE_ccst AVOGADRO kf (tet_vol itet) (sr_order (pd_sreacdef patch lsridx))))
         else
           (if \<not> pd_has_ocompdef patch then Inl AssertFailed
            else case tri_oTet tri of
                   None \<Rightarrow> Inl AssertFailed
                 | Some otet \<Rightarrow>
                     Inr (TetODE_ccst AVOGADRO kf (tet_vol otet) (sr_order (pd_sreacdef patch lsridx)))))
      else Inr (TetODE_ccst2D AVOGADRO kf (tri_area tri) (sr_order (pd_sreacdef patch lsridx))))"

definition patch_markers :: "Statedef \<Rightarrow> Comp list \<Rightarrow> Patch list \<Rightarrow> nat \<Rightarrow> nat \<times> nat" where
  \<comment> \<open>\<^verbatim>\<open>spec_idx\<close> and \<^verbatim>\<open>reac_idx\<close> after the loop over all compartments and the loop over
      the patches before \<open>pidx\<close>\<close>
  "patch_markers sd comps patches pidx =
     fold (\<lambda>i (spec_idx, reac_idx).
       (let spec_idx = u32 (spec_idx + u32 (pd_countSpecs (patchdef sd i) * countTris (patches ! i)));
            reac_idx = u32 (reac_idx + u32 (pd_countSReacs (patchdef sd i) * countTris (patches ! i)));
            reac_idx = u32 (reac_idx +
                            u32 (pd_countSurfDiffs (patchdef sd i) * countTris (patches ! i)))
        in (spec_idx, reac_idx)))
     [0..<pidx] (comp_markers sd comps (length comps))"

definition rebind_adjacent ::
  "Statedef \<Rightarrow> Comp list \<Rightarrow> Tet option \<Rightarrow> nat \<Rightarrow> nat \<Rightarrow> real \<Rightarrow> TetODE \<Rightarrow> outcome" where
  \<comment> \<open>the block under \<^verbatim>\<open>reqInside()\<close>, and with the outer tet and \<^verbatim>\<open>countSpecs_O()\<close> the block
      under \<^verbatim>\<open>reqOutside()\<close>\<close>
  "rebind_adjacent sd comps tet_ptr patch_countSpecs reac_idx c s =
     (case tet_ptr of
        None \<Rightarrow> throws AssertFailed s
      | Some itet \<Rightarrow>
          (let icidx = cd_gidx (tet_compdef itet);
               spec_idx = comp_spec_marker sd comps icidx;
               icompSpecs_N = cd_countSpecs (compdef sd icidx)
           in if \<not> icompSpecs_N = patch_countSpecs then throws AssertFailed s
              else
                (let tlidx = comp_getTet_GtoL (comps ! icidx) (tet_idx itet);
                     spec_idx = u32 (spec_idx + u32 (icompSpecs_N * tlidx))
                 in returns
                      (s\<lparr>pSpec_matrixsub :=
                           rebind_slots spec_idx icompSpecs_N reac_idx c (pSpec_matrixsub s)\<rparr>))))"

definition TetODE_setTriSReacK :: "real \<Rightarrow> nat \<Rightarrow> nat \<Rightarrow> real \<Rightarrow> TetODE \<Rightarrow> outcome" where
  "TetODE_setTriSReacK AVOGADRO tidx ridx kf s =
     (if \<not> ridx < sd_countSReacs (statedef s) then throws AssertFailed s
      else if \<not> tidx < length (pTris s) then throws AssertFailed s
      else case pTris s ! tidx of
             None \<Rightarrow> throws (ArgErr ''Triangle has not been assigned to a patch.'') s
           | Some tri \<Rightarrow>
               (let patch = tri_patchdef tri;
                    pidx = pd_gidx patch
                in case pd_sreacG2L patch ridx of
                     None \<Rightarrow> throws (ArgErr ''Surface Reaction undefined in triangle.'') s
                   | Some lsridx \<Rightarrow>
                       (case sreac_ccst AVOGADRO kf tri patch lsridx of
                          Inl e \<Rightarrow> throws e s
                        | Inr new_ccst \<Rightarrow>
                            (let (spec_idx, reac_idx) =
                                   patch_markers (statedef s) (pComps s) (pPatches s) pidx;
                                 patchSpecs_N = pd_countSpecs patch;
                                 patchSReacs_N = pd_countSReacs patch;
                                 localpatch = pPatches s ! pidx;
                                 tri_lpidx = patch_getTri_GtoL localpatch tidx;
                                 spec_idx = u32 (spec_idx + u32 (patchSpecs_N * tri_lpidx));
                                 reac_idx = u32 (reac_idx + u32 (patchSReacs_N * tri_lpidx));
                                 reac_idx = u32 (reac_idx + lsridx);
                                 s = s\<lparr>pSpec_matrixsub :=
                                        rebind_slots spec_idx patchSpecs_N reac_idx new_ccst
                                          (pSpec_matrixsub s)\<rparr>
                             in and_then
                                  (if sr_reqInside (pd_sreacdef patch lsridx)
                                   then rebind_adjacent (statedef s) (pComps s) (tri_iTet tri)
                                          (pd_countSpecs_I patch) reac_idx new_ccst s
                                   else returns s)
                                  (\<lambda>s. if sr_reqOutside (pd_sreacdef patch lsridx)
                                        then rebind_adjacent (statedef s) (pComps s) (tri_oTet tri)
                                               (pd_countSpecs_O patch) reac_idx new_ccst s
                                        else returns s)))))"

fun setPatchSReacK_loop :: "real \<Rightarrow> Tri list \<Rightarrow> nat \<Rightarrow> real \<Rightarrow> TetODE \<Rightarrow> outcome" where
  "setPatchSReacK_loop AVOGADRO [] ridx kf s = returns s"
| "setPatchSReacK_loop AVOGADRO (tri # tris) ridx kf s =
     and_then (TetODE_setTriSReacK AVOGADRO (tri_idx tri) ridx kf s)
       (setPatchSReacK_loop AVOGADRO tris ridx kf)"

definition TetODE_setPatchSReacK :: "real \<Rightarrow> nat \<Rightarrow> nat \<Rightarrow> real \<Rightarrow> TetODE \<Rightarrow> outcome" where
  "TetODE_setPatchSReacK AVOGADRO pidx ridx kf s =
     (if \<not> pidx < countPatches (statedef s) then throws AssertFailed s
      else if \<not> countPatches (statedef s) = length (pPatches s) then throws AssertFailed s
      else setPatchSReacK_loop AVOGADRO (patch_tris (pPatches s ! pidx)) ridx kf s)"

section \<open>The layout of the state vector in the words of the specification\<close>

definition comp_slot :: "TetODE \<Rightarrow> nat \<Rightarrow> nat \<Rightarrow> nat \<Rightarrow> nat" where
  \<comment> \<open>position in \<open>y\<close> of local species \<open>k\<close> in the \<open>i\<close>-th tet of compartment \<open>cidx\<close>: the
      blocks of the earlier compartments, then one block of the compartment's species per tet\<close>
  "comp_slot s cidx i k =
     (\<Sum>m<cidx. cd_countSpecs (compdef (statedef s) m) * countTets (pComps s ! m)) +
     (i * cd_countSpecs (compdef (statedef s) cidx) + k)"

definition tet_first_slot :: "TetODE \<Rightarrow> Tet \<Rightarrow> nat \<Rightarrow> nat" where
  \<comment> \<open>the first slot of the block of the tet with global index \<open>tidx\<close>, through the tet's
      own compartment definition\<close>
  "tet_first_slot s tet tidx =
     (let cdef = tet_compdef tet
      in (\<Sum>m<cd_gidx cdef. cd_countSpecs (compdef (statedef s) m) * countTets (pComps s ! m)) +
         cd_countSpecs cdef * comp_getTet_GtoL (pComps s ! cd_gidx cdef) tidx)"

definition tet_reac_id :: "TetODE \<Rightarrow> Tet \<Rightarrow> nat \<Rightarrow> nat \<Rightarrow> nat" where
  \<comment> \<open>the process id of local reaction \<open>lridx\<close> at that tet: the reactions and diffusion
      rules of the earlier compartments, one id per tet each, then one block of the
      compartment's reactions per tet\<close>
  "tet_reac_id s tet tidx lridx =
     (let cdef = tet_compdef tet
      in (\<Sum>m<cd_gidx cdef.
            cd_countReacs (compdef (statedef s) m) * countTets (pComps s ! m) +
            cd_countDiffs (compdef (statedef s) m) * countTets (pComps s ! m)) +
         cd_countReacs cdef * comp_getTet_GtoL (pComps s ! cd_gidx cdef) tidx + lridx)"



section \<open>Properties of the rate evaluator\<close>

lemma player_step_power: "player_step y a q = a * y ! spec_idx q ^ order q"
  by (simp add: player_step_def Let_def)

lemma foldl_player_step:
  "foldl (player_step y) a qs = a * (\<Prod>q\<leftarrow>qs. y ! spec_idx q ^ order q)"
  by (induction qs arbitrary: a) (simp_all add: player_step_power mult.assoc)

lemma foldl_players:
  "foldl (\<lambda>dydt_r p. foldl (player_step y) dydt_r (info p)) a ps =
     a * (\<Prod>q\<leftarrow>concat (map info ps). y ! spec_idx q ^ order q)"
  by (induction ps arbitrary: a) (simp_all add: foldl_player_step mult.assoc)

lemma reac_dydt_eq:
  "reac_dydt y r =
     of_int (upd r) * ccst r * (\<Prod>q\<leftarrow>concat (map info (players r)). y ! spec_idx q ^ order q)"
  by (simp add: reac_dydt_def foldl_players)

lemma foldl_add_sum_list:
  "foldl (\<lambda>dydt r. dydt + f r) (a::real) rs = a + (\<Sum>r\<leftarrow>rs. f r)"
  by (induction rs arbitrary: a) simp_all

lemma spec_dydt_eq:
  "spec_dydt y sp =
     (\<Sum>r\<leftarrow>sp. of_int (upd r) * ccst r *
        (\<Prod>q\<leftarrow>concat (map info (players r)). y ! spec_idx q ^ order q))"
  by (simp add: spec_dydt_def foldl_add_sum_list reac_dydt_eq)

lemma length_f_cvode_loop: "length (f_cvode_loop y G i ydot) = length ydot"
  by (induction G arbitrary: i ydot) simp_all

lemma f_cvode_loop_below:
  "j < i \<Longrightarrow> f_cvode_loop y G i ydot ! j = ydot ! j"
  by (induction G arbitrary: i ydot) simp_all

lemma f_cvode_loop_above:
  "i + length G \<le> j \<Longrightarrow> f_cvode_loop y G i ydot ! j = ydot ! j"
  by (induction G arbitrary: i ydot) simp_all

lemma f_cvode_loop_nth:
  "i + length G \<le> length ydot \<Longrightarrow> k < length G \<Longrightarrow>
     f_cvode_loop y G i ydot ! (i + k) = spec_dydt y (G ! k)"
proof (induction G arbitrary: i ydot k)
  case Nil
  then show ?case by simp
next
  case (Cons sp sps)
  show ?case
  proof (cases k)
    case 0
    with Cons.prems show ?thesis by (simp add: f_cvode_loop_below)
  next
    case (Suc k')
    with Cons.prems have "f_cvode_loop y sps (Suc i) (ydot[i := spec_dydt y sp]) ! (Suc i + k')
        = spec_dydt y (sps ! k')"
      by (intro Cons.IH) simp_all
    with Suc show ?thesis by simp
  qed
qed

text \<open>
  Claim C1. For every time \<open>t\<close> and state vector \<open>y\<close>, the derivative evaluator
  \<^verbatim>\<open>f_cvode\<close> returns 0, leaves the process graph and \<open>y\<close> as they were, and writes for
  each slot \<open>i\<close> of the graph the sum, over the processes stored for slot \<open>i\<close>, of
  \<open>upd * ccst * \<Prod> y[j] ^ order\<close>, the product ranging over all reactant descriptors
  \<open>(order, j)\<close> of the process. The output vector keeps its length, and entries past
  the graph are not written. The vectors are as long as the graph needs: \<open>ydot\<close> has a
  slot for every row, and every descriptor indexes inside \<open>y\<close>.
\<close>

theorem f_cvode_mass_action:
  assumes "length G \<le> length ydot"
    and "\<forall>sp \<in> set G. \<forall>r \<in> set sp. \<forall>p \<in> set (players r). \<forall>q \<in> set (info p).
           spec_idx q < length y"
  shows "\<exists>ydot'. f_cvode G t y ydot = (0, G, y, ydot') \<and>
           length ydot' = length ydot \<and>
           (\<forall>i < length G. ydot' ! i =
              (\<Sum>r\<leftarrow>G ! i. of_int (upd r) * ccst r *
                 (\<Prod>q\<leftarrow>concat (map info (players r)). y ! spec_idx q ^ order q))) \<and>
           (\<forall>i. length G \<le> i \<longrightarrow> ydot' ! i = ydot ! i)"
proof -
  have "\<forall>i < length G. f_cvode_loop y G 0 ydot ! i = spec_dydt y (G ! i)"
    using f_cvode_loop_nth [of 0 G ydot _ y] assms(1) by simp
  moreover have "\<forall>i. length G \<le> i \<longrightarrow> f_cvode_loop y G 0 ydot ! i = ydot ! i"
    by (simp add: f_cvode_loop_above)
  ultimately show ?thesis
    by (simp add: f_cvode_def length_f_cvode_loop spec_dydt_eq)
qed

theorem f_cvode_mass_action_witness:
  "f_cvode
     [[\<lparr>ccst = 2, r_idx = 0, upd = -1,
        players = [\<lparr>info = [\<lparr>order = 2, spec_idx = 0\<rparr>, \<lparr>order = 1, spec_idx = 1\<rparr>]\<rparr>]\<rparr>],
      [\<lparr>ccst = 2, r_idx = 0, upd = 1,
        players = [\<lparr>info = [\<lparr>order = 2, spec_idx = 0\<rparr>, \<lparr>order = 1, spec_idx = 1\<rparr>]\<rparr>]\<rparr>,
       \<lparr>ccst = 5, r_idx = 1, upd = 3, players = [\<lparr>info = []\<rparr>]\<rparr>]]
     0 [3, 7] [0, 0, 9]
   = (0,
      [[\<lparr>ccst = 2, r_idx = 0, upd = -1,
         players = [\<lparr>info = [\<lparr>order = 2, spec_idx = 0\<rparr>, \<lparr>order = 1, spec_idx = 1\<rparr>]\<rparr>]\<rparr>],
       [\<lparr>ccst = 2, r_idx = 0, upd = 1,
         players = [\<lparr>info = [\<lparr>order = 2, spec_idx = 0\<rparr>, \<lparr>order = 1, spec_idx = 1\<rparr>]\<rparr>]\<rparr>,
        \<lparr>ccst = 5, r_idx = 1, upd = 3, players = [\<lparr>info = []\<rparr>]\<rparr>]],
      [3, 7], [-126, 141, 9])"
proof -
  let ?G = "[[\<lparr>ccst = 2, r_idx = 0, upd = -1,
        players = [\<lparr>info = [\<lparr>order = 2, spec_idx = 0\<rparr>, \<lparr>order = 1, spec_idx = 1\<rparr>]\<rparr>]\<rparr>],
      [\<lparr>ccst = 2, r_idx = 0, upd = 1,
        players = [\<lparr>info = [\<lparr>order = 2, spec_idx = 0\<rparr>, \<lparr>order = 1, spec_idx = 1\<rparr>]\<rparr>]\<rparr>,
       \<lparr>ccst = 5, r_idx = 1, upd = 3, players = [\<lparr>info = []\<rparr>]\<rparr>]] :: matrixsub"
  have h1: "length ?G \<le> length [0, 0, 9::real]" by simp
  have h2: "\<forall>sp \<in> set ?G. \<forall>r \<in> set sp. \<forall>p \<in> set (players r). \<forall>q \<in> set (info p).
           spec_idx q < length [3, 7::real]" by simp
  from f_cvode_mass_action [OF h1 h2, of 0]
  obtain ydot' where e: "f_cvode ?G 0 [3, 7] [0, 0, 9] = (0, ?G, [3, 7], ydot')"
    and l: "length ydot' = 3"
    and v: "\<forall>i < length ?G. ydot' ! i =
              (\<Sum>r\<leftarrow>?G ! i. of_int (upd r) * ccst r *
                 (\<Prod>q\<leftarrow>concat (map info (players r)). [3, 7] ! spec_idx q ^ order q))"
    and r: "\<forall>i. length ?G \<le> i \<longrightarrow> ydot' ! i = [0, 0, 9] ! i"
    by auto
  from v have "ydot' ! 0 = -126" by simp
  moreover from v have "ydot' ! 1 = 141" by (simp add: nth_Cons')
  moreover from r have "ydot' ! Suc (Suc 0) = 9" by (simp add: numeral_2_eq_2)
  ultimately have "ydot' = [-126, 141, 9]" using l
    by (intro nth_equalityI) (auto simp: less_Suc_eq numeral_3_eq_3)
  with e show ?thesis by simp
qed

section \<open>Properties of the scaled constants\<close>

text \<open>
  Claim C3. For a reaction order \<open>n\<close> that the cast to \<^verbatim>\<open>int\<close> represents (below \<open>2 ^ 31\<close>;
  reaction orders are at most 4) and a positive scale, \<^verbatim>\<open>_ccst(k, V, n)\<close> is
  \<open>k * (1000 * V * N\<^sub>A) ^ (-(n - 1))\<close> and \<^verbatim>\<open>_ccst2D(k, A, n)\<close> is
  \<open>k * (A * N\<^sub>A) ^ (-(n - 1))\<close>; for a zero-order reaction the results are
  \<open>k * (1000 * V * N\<^sub>A)\<close> and \<open>k * (A * N\<^sub>A)\<close>.
\<close>

theorem ccst_scaling:
  assumes "n < 2 ^ 31" and "0 < N\<^sub>A" and "0 < V" and "0 < A"
  shows "TetODE_ccst N\<^sub>A k V n = k * ((1000 * V * N\<^sub>A) powi (- (int n - 1))) \<and>
         TetODE_ccst2D N\<^sub>A k A n = k * ((A * N\<^sub>A) powi (- (int n - 1))) \<and>
         TetODE_ccst N\<^sub>A k V 0 = k * (1000 * V * N\<^sub>A) \<and>
         TetODE_ccst2D N\<^sub>A k A 0 = k * (A * N\<^sub>A)"
  using assms by (simp add: TetODE_ccst_def TetODE_ccst2D_def int_of_uint_def)

theorem ccst_scaling_witness:
  "(2::nat) < 2 ^ 31 \<and> (0::real) < 3 \<and> (0::real) < 1/6000 \<and> (0::real) < 1/9 \<and>
   TetODE_ccst 3 8 (1/6000) 2 = 16 \<and> TetODE_ccst2D 3 8 (1/9) 2 = 24 \<and>
   TetODE_ccst 3 8 (1/6000) 0 = 4 \<and> TetODE_ccst2D 3 8 (1/9) 0 = 8/3"
  using ccst_scaling [of 2 3 "1/6000" "1/9" 8] by (simp add: power_int_minus)

section \<open>Properties of the unimplemented operations\<close>

text \<open>
  Claim C9, evaluated on the code. Eight of the nine operations raise \<^verbatim>\<open>NotImplErr\<close>;
  \<^verbatim>\<open>_getCompReacActive\<close> returns \<^verbatim>\<open>true\<close> for every compartment and reaction index.
\<close>

theorem getCompReacActive_returns_true:
  "TetODE_getCompReacActive cidx ridx = Inr True \<and>
   (\<forall>msg. TetODE_getCompReacActive cidx ridx \<noteq> Inl (NotImplErr msg)) \<and>
   TetODE_reset = Inl (NotImplErr ''reset() not implemented for steps::solver::TetODE solver'') \<and>
   TetODE_getCompClamped cidx sidx = Inl (NotImplErr []) \<and>
   TetODE_setCompClamped cidx sidx b = Inl (NotImplErr []) \<and>
   TetODE_getPatchClamped pidx sidx = Inl (NotImplErr []) \<and>
   TetODE_setPatchClamped pidx sidx b = Inl (NotImplErr []) \<and>
   TetODE_setCompReacActive cidx ridx b = Inl (NotImplErr []) \<and>
   TetODE_getPatchSReacActive pidx ridx = Inl (NotImplErr []) \<and>
   TetODE_setPatchSReacActive pidx ridx b = Inl (NotImplErr [])"
  by (simp add: TetODE_getCompReacActive_def TetODE_reset_def TetODE_getCompClamped_def
      TetODE_setCompClamped_def TetODE_getPatchClamped_def TetODE_setPatchClamped_def
      TetODE_setCompReacActive_def TetODE_getPatchSReacActive_def
      TetODE_setPatchSReacActive_def)

section \<open>Properties of setup: sizes\<close>

lemma u32_id: "x < 2 ^ 32 \<Longrightarrow> u32 x = x"
  by (simp add: u32_def)

lemma fold_totals_comp:
  "a + (\<Sum>c\<leftarrow>comps. cd_countSpecs (comp_def c) * countTets c) < 2 ^ 32 \<Longrightarrow>
   fst (fold totals_comp comps (a, b))
     = a + (\<Sum>c\<leftarrow>comps. cd_countSpecs (comp_def c) * countTets c)"
proof (induction comps arbitrary: a b)
  case Nil
  then show ?case by simp
next
  case (Cons c comps)
  let ?x = "cd_countSpecs (comp_def c) * countTets c"
  from Cons.prems have lt: "a + ?x + (\<Sum>c\<leftarrow>comps. cd_countSpecs (comp_def c) * countTets c) < 2 ^ 32"
    by (simp add: add.assoc)
  then have "?x < 2 ^ 32" and "a + ?x < 2 ^ 32" by linarith+
  then have e: "u32 (a + u32 ?x) = a + ?x" by (simp add: u32_id)
  show ?case using Cons.IH [OF lt] by (simp add: totals_comp_def Let_def e add.assoc)
qed

lemma fold_totals_patch:
  "a + (\<Sum>p\<leftarrow>patches. pd_countSpecs (patch_def p) * countTris p) < 2 ^ 32 \<Longrightarrow>
   fst (fold totals_patch patches (a, b))
     = a + (\<Sum>p\<leftarrow>patches. pd_countSpecs (patch_def p) * countTris p)"
proof (induction patches arbitrary: a b)
  case Nil
  then show ?case by simp
next
  case (Cons p patches)
  let ?x = "pd_countSpecs (patch_def p) * countTris p"
  from Cons.prems have lt: "a + ?x + (\<Sum>p\<leftarrow>patches. pd_countSpecs (patch_def p) * countTris p) < 2 ^ 32"
    by (simp add: add.assoc)
  then have "?x < 2 ^ 32" and "a + ?x < 2 ^ 32" by linarith+
  then have e: "u32 (a + u32 ?x) = a + ?x" by (simp add: u32_id)
  show ?case using Cons.IH [OF lt] by (simp add: totals_patch_def Let_def e add.assoc)
qed

lemma length_fold_update: "length (fold (\<lambda>i v. v[i := c]) is v) = length v"
  by (induction "is" arbitrary: v) simp_all

lemma length_setup_vectors:
  "length (fst (setup_vectors n)) = n \<and> length (snd (setup_vectors n)) = n"
  by (simp add: setup_vectors_def Let_def N_VNew_Serial_def length_fold_update)

text \<open>
  Claim C4. When the sum over the compartments of \<open>n_species * n_tets\<close> plus the sum over
  the patches of \<open>n_species * n_tris\<close> fits the 32-bit counter, \<^verbatim>\<open>pSpecs_tot\<close> after setup
  is that sum, and it is the length of the state vector \<open>y\<close>, of the absolute-tolerance
  vector and of the process graph.
\<close>

theorem setup_state_vector_length:
  assumes "(\<Sum>c\<leftarrow>comps. cd_countSpecs (comp_def c) * countTets c) +
           (\<Sum>p\<leftarrow>patches. pd_countSpecs (patch_def p) * countTris p) < 2 ^ 32"
  shows "fst (setup_totals comps patches) =
           (\<Sum>c\<leftarrow>comps. cd_countSpecs (comp_def c) * countTets c) +
           (\<Sum>p\<leftarrow>patches. pd_countSpecs (patch_def p) * countTris p) \<and>
         length (fst (setup_vectors (fst (setup_totals comps patches)))) =
           fst (setup_totals comps patches) \<and>
         length (snd (setup_vectors (fst (setup_totals comps patches)))) =
           fst (setup_totals comps patches) \<and>
         length (setup_matrixsub (fst (setup_totals comps patches))) =
           fst (setup_totals comps patches)"
proof -
  let ?sc = "\<Sum>c\<leftarrow>comps. cd_countSpecs (comp_def c) * countTets c"
  obtain a b where ab: "fold totals_comp comps (0, 0) = (a, b)"
    by (cases "fold totals_comp comps (0, 0)")
  have "fst (fold totals_comp comps (0, 0)) = 0 + ?sc"
    using assms by (intro fold_totals_comp) simp
  with ab have a: "a = ?sc" by simp
  have "fst (fold totals_patch patches (a, b)) =
          a + (\<Sum>p\<leftarrow>patches. pd_countSpecs (patch_def p) * countTris p)"
    using assms a by (intro fold_totals_patch) simp
  with a ab show ?thesis
    by (simp add: setup_totals_def length_setup_vectors setup_matrixsub_def)
qed


theorem setup_state_vector_length_witness:
  "fst (setup_totals [ex_comp] [ex_patch]) = 5 \<and>
   length (fst (setup_vectors (fst (setup_totals [ex_comp] [ex_patch])))) = 5 \<and>
   length (snd (setup_vectors (fst (setup_totals [ex_comp] [ex_patch])))) = 5 \<and>
   length (setup_matrixsub (fst (setup_totals [ex_comp] [ex_patch]))) = 5"
proof -
  have s: "(\<Sum>c\<leftarrow>[ex_comp]. cd_countSpecs (comp_def c) * countTets c) +
           (\<Sum>p\<leftarrow>[ex_patch]. pd_countSpecs (patch_def p) * countTris p) = 5"
    by code_simp
  then have h: "(\<Sum>c\<leftarrow>[ex_comp]. cd_countSpecs (comp_def c) * countTets c) +
           (\<Sum>p\<leftarrow>[ex_patch]. pd_countSpecs (patch_def p) * countTris p) < 2 ^ 32"
    by simp
  from setup_state_vector_length [OF h]
  have t: "fst (setup_totals [ex_comp] [ex_patch]) = 5" unfolding s by blast
  from setup_state_vector_length [OF h] show ?thesis unfolding t by blast
qed

section \<open>Properties of setup: volume diffusion\<close>

lemma fold_appends:
  assumes "\<And>x G. x \<in> set xs \<Longrightarrow> length G = n \<Longrightarrow>
             length (f x G) = n \<and> (\<forall>s<n. f x G ! s = G ! s @ c x s)"
    and "length G = n"
  shows "length (fold f xs G) = n \<and>
         (\<forall>s<n. fold f xs G ! s = G ! s @ concat (map (\<lambda>x. c x s) xs))"
  using assms
proof (induction xs arbitrary: G)
  case Nil
  then show ?case by simp
next
  case (Cons x xs)
  have st: "length (f x G) = n \<and> (\<forall>s<n. f x G ! s = G ! s @ c x s)"
    using Cons.prems by simp
  have "length (fold f xs (f x G)) = n \<and>
         (\<forall>s<n. fold f xs (f x G) ! s = f x G ! s @ concat (map (\<lambda>x. c x s) xs))"
    using Cons.prems st by (intro Cons.IH) simp_all
  with st show ?case by simp
qed

lemma fold_add_sum:
  "fold (\<lambda>m idx. idx + f m) [0..<i] (a::nat) = a + (\<Sum>m<i. f m)"
  by (induction i) simp_all

lemma spec_base_of_sum:
  "spec_base_of sd comps i = (\<Sum>m<i. cd_countSpecs (compdef sd m) * countTets (comps ! m))"
  by (simp add: spec_base_of_def fold_add_sum)

lemma slot_in_range:
  fixes N :: nat
  assumes "t < ntets" and "k < N" and "b + N * ntets \<le> n"
  shows "b + N * t + k < n"
proof -
  have "N * t + k < N * t + N" using assms(2) by simp
  also have "\<dots> = N * Suc t" by simp
  also have "\<dots> \<le> N * ntets" using assms(1) by (intro mult_le_mono2) simp
  finally show ?thesis using assms(3) by simp
qed

lemma push_back_at_nth:
  "i < length G \<Longrightarrow> s < length G \<Longrightarrow>
     push_back_at G i a ! s = G ! s @ (if s = i then [a] else [])"
  by (simp add: push_back_at_def nth_list_update)

lemma length_push_back_at: "length (push_back_at G i a) = length G"
  by (simp add: push_back_at_def)

lemma diff_direction_appends:
  assumes len: "length G = n"
    and fit: "spec_base_of sd comps i + cd_countSpecs (comp_def (comps ! i)) * countTets (comps ! i) \<le> n"
    and t: "t < countTets (comps ! i)"
    and k: "k < cd_countSpecs (comp_def (comps ! i))"
    and nb: "\<forall>T'. tet_nextTet (getTet (comps ! i) t) l = Some T' \<longrightarrow>
               comp_getTet_GtoL (comps ! i) T' < countTets (comps ! i)"
  shows "length (diff_direction sd comps i rid0 t j k l G) = n \<and>
         (\<forall>s<n. diff_direction sd comps i rid0 t j k l G ! s =
                  G ! s @ diff_pair sd comps i (u32 (rid0 + j)) t j k l s)"
proof (cases "tet_nextTet (getTet (comps ! i) t) l")
  case None
  then show ?thesis using len by (simp add: diff_direction_def diff_pair_def Let_def)
next
  case (Some T')
  let ?N = "cd_countSpecs (comp_def (comps ! i))"
  let ?b = "spec_base_of sd comps i"
  have d: "?b + ?N * t + k < n" using t k fit by (rule slot_in_range)
  have "comp_getTet_GtoL (comps ! i) T' < countTets (comps ! i)" using nb Some by simp
  then have a: "?b + ?N * comp_getTet_GtoL (comps ! i) T' + k < n"
    using k fit by (rule slot_in_range)
  show ?thesis using Some len d a
    by (simp add: diff_direction_def diff_pair_def Let_def push_back_at_nth
        length_push_back_at tet_slot_def spec_base_of_sum [symmetric] diff_process_def)
qed


lemma diff_dirs_appends:
  assumes len: "length G = n"
    and fit: "spec_base_of sd comps i + cd_countSpecs (comp_def (comps ! i)) * countTets (comps ! i) \<le> n"
    and t: "t < countTets (comps ! i)"
    and k: "k < cd_countSpecs (comp_def (comps ! i))"
    and nb: "\<forall>l<4. \<forall>T'. tet_nextTet (getTet (comps ! i) t) l = Some T' \<longrightarrow>
               comp_getTet_GtoL (comps ! i) T' < countTets (comps ! i)"
  shows "length (fold (diff_direction sd comps i rid0 t j k) [0..<4] G) = n \<and>
         (\<forall>s<n. fold (diff_direction sd comps i rid0 t j k) [0..<4] G ! s =
                  G ! s @ concat (map (\<lambda>l. diff_pair sd comps i (u32 (rid0 + j)) t j k l s) [0..<4]))"
proof (rule fold_appends [OF _ len])
  fix l and G' :: matrixsub
  assume "l \<in> set [0..<4]" and "length G' = n"
  then show "length (diff_direction sd comps i rid0 t j k l G') = n \<and>
         (\<forall>s<n. diff_direction sd comps i rid0 t j k l G' ! s =
                  G' ! s @ diff_pair sd comps i (u32 (rid0 + j)) t j k l s)"
    using fit t k nb by (intro diff_direction_appends) simp_all
qed

lemma diff_specs_appends:
  assumes len: "length G = n"
    and fit: "spec_base_of sd comps i + cd_countSpecs (comp_def (comps ! i)) * countTets (comps ! i) \<le> n"
    and t: "t < countTets (comps ! i)"
    and nb: "\<forall>l<4. \<forall>T'. tet_nextTet (getTet (comps ! i) t) l = Some T' \<longrightarrow>
               comp_getTet_GtoL (comps ! i) T' < countTets (comps ! i)"
  shows "length (fold (\<lambda>k G. if cd_diff_dep (comp_def (comps ! i)) j k
                     then fold (diff_direction sd comps i rid0 t j k) [0..<4] G
                     else G) [0..<cd_countSpecs (comp_def (comps ! i))] G) = n \<and>
         (\<forall>s<n. fold (\<lambda>k G. if cd_diff_dep (comp_def (comps ! i)) j k
                     then fold (diff_direction sd comps i rid0 t j k) [0..<4] G
                     else G) [0..<cd_countSpecs (comp_def (comps ! i))] G ! s =
                  G ! s @ concat (map (\<lambda>k. if cd_diff_dep (comp_def (comps ! i)) j k
                     then concat (map (\<lambda>l. diff_pair sd comps i (u32 (rid0 + j)) t j k l s) [0..<4])
                     else []) [0..<cd_countSpecs (comp_def (comps ! i))]))"
proof (rule fold_appends [OF _ len])
  fix k and G' :: matrixsub
  assume k: "k \<in> set [0..<cd_countSpecs (comp_def (comps ! i))]" and l: "length G' = n"
  then have "k < cd_countSpecs (comp_def (comps ! i))" by simp
  from diff_dirs_appends [OF l fit t this nb, where ?rid0.0 = rid0 and j = j] l
  show "length (if cd_diff_dep (comp_def (comps ! i)) j k
                then fold (diff_direction sd comps i rid0 t j k) [0..<4] G' else G') = n \<and>
        (\<forall>s<n. (if cd_diff_dep (comp_def (comps ! i)) j k
                then fold (diff_direction sd comps i rid0 t j k) [0..<4] G' else G') ! s =
           G' ! s @ (if cd_diff_dep (comp_def (comps ! i)) j k
                     then concat (map (\<lambda>l. diff_pair sd comps i (u32 (rid0 + j)) t j k l s) [0..<4])
                     else []))"
    by simp
qed

lemma diff_rules_appends:
  assumes len: "length G = n"
    and fit: "spec_base_of sd comps i + cd_countSpecs (comp_def (comps ! i)) * countTets (comps ! i) \<le> n"
    and t: "t < countTets (comps ! i)"
    and nb: "\<forall>l<4. \<forall>T'. tet_nextTet (getTet (comps ! i) t) l = Some T' \<longrightarrow>
               comp_getTet_GtoL (comps ! i) T' < countTets (comps ! i)"
  shows "length (fold (\<lambda>j. fold (\<lambda>k G. if cd_diff_dep (comp_def (comps ! i)) j k
                     then fold (diff_direction sd comps i rid0 t j k) [0..<4] G
                     else G) [0..<cd_countSpecs (comp_def (comps ! i))])
                  [0..<cd_countDiffs (comp_def (comps ! i))] G) = n \<and>
         (\<forall>s<n. fold (\<lambda>j. fold (\<lambda>k G. if cd_diff_dep (comp_def (comps ! i)) j k
                     then fold (diff_direction sd comps i rid0 t j k) [0..<4] G
                     else G) [0..<cd_countSpecs (comp_def (comps ! i))])
                  [0..<cd_countDiffs (comp_def (comps ! i))] G ! s =
                  G ! s @ diff_appended_tet sd comps i rid0 t s)"
  unfolding diff_appended_tet_def
proof (rule fold_appends [OF _ len])
  fix j and G' :: matrixsub
  assume "j \<in> set [0..<cd_countDiffs (comp_def (comps ! i))]" and l: "length G' = n"
  from diff_specs_appends [OF l fit t nb, where ?rid0.0 = rid0 and j = j]
  show "length (fold (\<lambda>k G. if cd_diff_dep (comp_def (comps ! i)) j k
                     then fold (diff_direction sd comps i rid0 t j k) [0..<4] G
                     else G) [0..<cd_countSpecs (comp_def (comps ! i))] G') = n \<and>
         (\<forall>s<n. fold (\<lambda>k G. if cd_diff_dep (comp_def (comps ! i)) j k
                     then fold (diff_direction sd comps i rid0 t j k) [0..<4] G
                     else G) [0..<cd_countSpecs (comp_def (comps ! i))] G' ! s =
                  G' ! s @ concat (map (\<lambda>k. if cd_diff_dep (comp_def (comps ! i)) j k
                     then concat (map (\<lambda>l. diff_pair sd comps i (u32 (rid0 + j)) t j k l s) [0..<4])
                     else []) [0..<cd_countSpecs (comp_def (comps ! i))]))"
    by simp
qed


lemma u32_add_left: "u32 (u32 a + b) = u32 (a + b)"
  by (simp add: u32_def mod_add_left_eq)

lemma diff_appended_tet_u32:
  "diff_appended_tet sd comps i (u32 r) t s = diff_appended_tet sd comps i r t s"
  by (simp add: diff_appended_tet_def u32_add_left cong: if_cong)

lemma diff_appended_tet_small:
  assumes "rid0 + cd_countDiffs (comp_def (comps ! i)) \<le> 2 ^ 32"
  shows "diff_appended_tet sd comps i rid0 t s =
     concat (map (\<lambda>j.
       concat (map (\<lambda>k.
         if cd_diff_dep (comp_def (comps ! i)) j k
         then concat (map (\<lambda>l. diff_pair sd comps i (rid0 + j) t j k l s) [0..<4])
         else [])
       [0..<cd_countSpecs (comp_def (comps ! i))]))
     [0..<cd_countDiffs (comp_def (comps ! i))])"
proof -
  have "u32 (rid0 + j) = rid0 + j" if "j < cd_countDiffs (comp_def (comps ! i))" for j
    using that assms by (intro u32_id) simp
  then show ?thesis
    unfolding diff_appended_tet_def
    by (intro arg_cong [where f = concat] map_cong refl) simp
qed

lemma setup_comp_diffs_upto:
  assumes len: "length G = n"
    and fit: "spec_base_of sd comps i + cd_countSpecs (comp_def (comps ! i)) * countTets (comps ! i) \<le> n"
    and nb: "\<forall>t<countTets (comps ! i). \<forall>l<4. \<forall>T'.
               tet_nextTet (getTet (comps ! i) t) l = Some T' \<longrightarrow>
               comp_getTet_GtoL (comps ! i) T' < countTets (comps ! i)"
    and m: "m \<le> countTets (comps ! i)"
  shows "\<exists>G'. fold (\<lambda>t (G, reac_gidx).
           (fold (\<lambda>j. fold (\<lambda>k G.
                     if cd_diff_dep (comp_def (comps ! i)) j k
                     then fold (diff_direction sd comps i reac_gidx t j k) [0..<4] G
                     else G)
                   [0..<cd_countSpecs (comp_def (comps ! i))])
              [0..<cd_countDiffs (comp_def (comps ! i))] G,
            u32 (reac_gidx + cd_countDiffs (comp_def (comps ! i)))))
         [0..<m] (G, rg) =
           (G', if m = 0 then rg else u32 (rg + cd_countDiffs (comp_def (comps ! i)) * m)) \<and>
        length G' = n \<and>
        (\<forall>s<n. G' ! s = G ! s @
           concat (map (\<lambda>t. diff_appended_tet sd comps i
                     (rg + cd_countDiffs (comp_def (comps ! i)) * t) t s) [0..<m]))"
  using m
proof (induction m)
  case 0
  then show ?case using len by simp
next
  case (Suc m)
  let ?D = "cd_countDiffs (comp_def (comps ! i))"
  let ?M = "if m = 0 then rg else u32 (rg + ?D * m)"
  from Suc obtain G1 where
    f: "fold (\<lambda>t (G, reac_gidx).
           (fold (\<lambda>j. fold (\<lambda>k G.
                     if cd_diff_dep (comp_def (comps ! i)) j k
                     then fold (diff_direction sd comps i reac_gidx t j k) [0..<4] G
                     else G)
                   [0..<cd_countSpecs (comp_def (comps ! i))])
              [0..<?D] G,
            u32 (reac_gidx + ?D)))
         [0..<m] (G, rg) = (G1, ?M)"
    and l1: "length G1 = n"
    and c1: "\<forall>s<n. G1 ! s = G ! s @
           concat (map (\<lambda>t. diff_appended_tet sd comps i (rg + ?D * t) t s) [0..<m])"
    by auto
  have t: "m < countTets (comps ! i)" using Suc.prems by simp
  with nb have nbm: "\<forall>l<4. \<forall>T'. tet_nextTet (getTet (comps ! i) m) l = Some T' \<longrightarrow>
               comp_getTet_GtoL (comps ! i) T' < countTets (comps ! i)" by simp
  have a: "diff_appended_tet sd comps i ?M m s = diff_appended_tet sd comps i (rg + ?D * m) m s"
    for s
    by (simp add: diff_appended_tet_u32)
  have b: "u32 (?M + ?D) = u32 (rg + ?D * Suc m)"
    by (simp add: u32_def mod_simps algebra_simps)
  from diff_rules_appends [OF l1 fit t nbm, where ?rid0.0 = ?M] c1 f
  show ?case unfolding a by (simp add: b del: mult_Suc_right)
qed

text \<open>
  Claim C2. For compartment \<open>i\<close> whose block of slots lies inside the graph and whose
  connected neighbours are tetrahedra of the same compartment, the volume diffusion
  loops of setup extend every slot \<open>s\<close> by exactly the processes of \<open>diff_pair\<close>: for
  every local tet \<open>t\<close>, diffusion rule \<open>j\<close> with constant \<open>D\<close>, species \<open>k\<close> the rule depends
  on and face \<open>l\<close> with a connected neighbour \<open>T'\<close>, one process with update \<open>-1\<close> at the
  slot of \<open>k\<close> in \<open>t\<close> and one with update \<open>+1\<close> at the slot of \<open>k\<close> in \<open>T'\<close>, both with the
  coefficient \<open>area l * D / (vol t * dist l)\<close> and the single reactant descriptor
  \<open>(1, slot of k in t)\<close>. Nothing else is appended, no slot loses a process, and the
  process-id marker advances by the number of rules per tet (in \<^verbatim>\<open>uint\<close>, as the process
  ids are).
\<close>

theorem setup_volume_diffusion_pairs:
  assumes fit: "tet_slot sd comps i (countTets (comps ! i)) 0 \<le> length G"
    and nb: "\<forall>t<countTets (comps ! i). \<forall>l<4. \<forall>T'.
               tet_nextTet (getTet (comps ! i) t) l = Some T' \<longrightarrow>
               comp_getTet_GtoL (comps ! i) T' < countTets (comps ! i)"
  shows "\<exists>G'. setup_comp_diffs sd comps i (G, reac_gidx) =
                 (G', if countTets (comps ! i) = 0 then reac_gidx
                      else u32 (reac_gidx +
                                cd_countDiffs (comp_def (comps ! i)) * countTets (comps ! i))) \<and>
           length G' = length G \<and>
           (\<forall>s<length G. G' ! s = G ! s @
              concat (map (\<lambda>t. diff_appended_tet sd comps i
                        (reac_gidx + cd_countDiffs (comp_def (comps ! i)) * t) t s)
                      [0..<countTets (comps ! i)]))"
proof -
  have fit': "spec_base_of sd comps i +
      cd_countSpecs (comp_def (comps ! i)) * countTets (comps ! i) \<le> length G"
    using fit by (simp add: tet_slot_def spec_base_of_sum)
  from setup_comp_diffs_upto [OF refl fit' nb order_refl, of reac_gidx]
  show ?thesis by (simp add: setup_comp_diffs_def Let_def)
qed



theorem setup_volume_diffusion_pairs_witness:
  "\<exists>G'. setup_comp_diffs ex_sd [ex_comp] 0 (replicate 5 [], 2) = (G', 4) \<and>
         length G' = 5 \<and>
         G' ! 0 = [diff_process 2 2 (-1) 0, diff_process (2/3) 3 1 2] \<and>
         G' ! 2 = [diff_process 2 2 1 0, diff_process (2/3) 3 (-1) 2]"
proof -
  have fit: "tet_slot ex_sd [ex_comp] 0 (countTets ([ex_comp] ! 0)) 0 \<le> length (replicate 5 ([]::structA list))"
    by code_simp
  have nb: "\<forall>t<countTets ([ex_comp] ! 0). \<forall>l<4. \<forall>T'.
               tet_nextTet (getTet ([ex_comp] ! 0) t) l = Some T' \<longrightarrow>
               comp_getTet_GtoL ([ex_comp] ! 0) T' < countTets ([ex_comp] ! 0)"
    by (auto simp: ex_comp_def countTets_def getTet_def ex_tet0_def ex_tet1_def less_Suc_eq
        split: if_splits)
  let ?c = "\<lambda>s. concat (map (\<lambda>t. diff_appended_tet ex_sd [ex_comp] 0
                        (2 + cd_countDiffs (comp_def ([ex_comp] ! 0)) * t) t s)
                      [0..<countTets ([ex_comp] ! 0)])"
  from setup_volume_diffusion_pairs [OF fit nb, of 2]
  obtain G' where e: "setup_comp_diffs ex_sd [ex_comp] 0 (replicate 5 [], 2) =
        (G', if countTets ([ex_comp] ! 0) = 0 then 2
             else u32 (2 + cd_countDiffs (comp_def ([ex_comp] ! 0)) * countTets ([ex_comp] ! 0)))"
    and l: "length G' = length (replicate 5 ([]::structA list))"
    and v: "\<forall>s<length (replicate 5 ([]::structA list)). G' ! s = replicate 5 [] ! s @ ?c s"
    by blast
  have nt: "countTets ([ex_comp] ! 0) = 2" and nd: "cd_countDiffs (comp_def ([ex_comp] ! 0)) = 1"
    and nd': "cd_countDiffs (comp_def ex_comp) = 1"
    by code_simp+
  have n: "(if countTets ([ex_comp] ! 0) = 0 then 2
             else u32 (2 + cd_countDiffs (comp_def ([ex_comp] ! 0)) * countTets ([ex_comp] ! 0))) = 4"
    unfolding nt nd by (simp add: u32_def)
  let ?a = "\<lambda>rid0 t s. concat (map (\<lambda>j.
       concat (map (\<lambda>k.
         if cd_diff_dep (comp_def ([ex_comp] ! 0)) j k
         then concat (map (\<lambda>l. diff_pair ex_sd [ex_comp] 0 (rid0 + j) t j k l s) [0..<4])
         else [])
       [0..<cd_countSpecs (comp_def ([ex_comp] ! 0))]))
     [0..<cd_countDiffs (comp_def ([ex_comp] ! 0))])"
  have two: "[0..<countTets ([ex_comp] ! 0)] = [0, 1]" unfolding nt by (simp add: upt_rec)
  have a0: "diff_appended_tet ex_sd [ex_comp] 0 2 0 s = ?a 2 0 s" for s
    by (rule diff_appended_tet_small) (simp add: nd')
  have a1: "diff_appended_tet ex_sd [ex_comp] 0 3 1 s = ?a 3 1 s" for s
    by (rule diff_appended_tet_small) (simp add: nd')
  have c1: "?c s = diff_appended_tet ex_sd [ex_comp] 0 (2 + 1 * 0) 0 s @
                  diff_appended_tet ex_sd [ex_comp] 0 (2 + 1 * 1) 1 s" for s
    unfolding two nd by (simp add: numeral_2_eq_2 numeral_3_eq_3)
  have e0: "(2::nat) + 1 * 0 = 2" "(2::nat) + 1 * 1 = 3" by simp_all
  have c: "?c s = ?a 2 0 s @ ?a 3 1 s" for s
    unfolding c1 e0 a0 a1 ..
  have "G' ! 0 = replicate 5 [] ! 0 @ ?c 0" using v by simp
  also have "\<dots> = replicate 5 [] ! 0 @ ?a 2 0 0 @ ?a 3 1 0" unfolding c ..
  also have "\<dots> = [diff_process 2 2 (-1) 0, diff_process (2/3) 3 1 2]" by code_simp
  finally have v0: "G' ! 0 = [diff_process 2 2 (-1) 0, diff_process (2/3) 3 1 2]" .
  have "G' ! 2 = replicate 5 [] ! 2 @ ?c 2" using v by simp
  also have "\<dots> = replicate 5 [] ! 2 @ ?a 2 0 2 @ ?a 3 1 2" unfolding c ..
  also have "\<dots> = [diff_process 2 2 1 0, diff_process (2/3) 3 (-1) 2]" by code_simp
  finally have v2: "G' ! 2 = [diff_process 2 2 1 0, diff_process (2/3) 3 (-1) 2]" .
  from e l v0 v2 show ?thesis unfolding n by simp
qed

section \<open>Properties of time integration\<close>

lemma run_initialise_eq:
  "run_initialise cv s =
     (let c1 = CVodeSetMaxNumSteps_call (pNmax_cvode s);
          c2 = CVodeSVtolerances_call (reltol_cvode s) (abstol_cvode s);
          mem = cvode_mem_cvode s
      in if pInitialised s then (Inr (), s)
         else if cv_flag cv (mem @ [c1]) < 0
         then (Inl (SysErr ''SUNDIALS_ERROR: %s() failed with flag = %d''),
               s\<lparr>cvode_mem_cvode := mem @ [c1]\<rparr>)
         else if cv_flag cv (mem @ [c1, c2]) < 0
         then (Inl (SysErr ''SUNDIALS_ERROR: %s() failed with flag = %d''),
               s\<lparr>cvode_mem_cvode := mem @ [c1, c2]\<rparr>)
         else (Inr (), s\<lparr>cvode_mem_cvode := mem @ [c1, c2], pInitialised := True\<rparr>))"
  by (simp add: run_initialise_def cvode_call_def check_flag_def and_then_def throws_def
      returns_def Let_def)

lemma run_reinit_eq:
  "run_reinit cv s =
     (let c = CVodeReInit_call (sd_time (statedef s)) (y_cvode s);
          mem = cvode_mem_cvode s
      in if \<not> pReinit s then (Inr (), s)
         else if cv_flag cv (mem @ [c]) < 0
         then (Inl (SysErr ''SUNDIALS_ERROR: %s() failed with flag = %d''),
               s\<lparr>cvode_mem_cvode := mem @ [c]\<rparr>)
         else (Inr (), s\<lparr>cvode_mem_cvode := mem @ [c], pReinit := False\<rparr>))"
  by (simp add: run_reinit_def cvode_call_def check_flag_def and_then_def throws_def
      returns_def Let_def)

lemma run_advance_eq:
  "run_advance cv endtime s =
     (let mem = cvode_mem_cvode s @ [step_call endtime s];
          s' = s\<lparr>cvode_mem_cvode := mem, y_cvode := cv_yout cv mem\<rparr>
      in if cv_flag cv mem \<noteq> 0 then (Inl (SysErr ''CVODE iteration failed''), s')
         else (Inr (), s'\<lparr>statedef := (statedef s)\<lparr>sd_time := endtime\<rparr>\<rparr>))"
  by (simp add: run_advance_def cvode_call_def throws_def returns_def Let_def step_call_def
      CV_SUCCESS_def)

lemma calls_succeed_Nil: "calls_succeed cv mem [] = True"
  by (simp add: calls_succeed_def)

lemma calls_succeed_Cons:
  "calls_succeed cv mem (c # cs) = (0 \<le> cv_flag cv (mem @ [c]) \<and> calls_succeed cv (mem @ [c]) cs)"
proof -
  have "(\<forall>k<Suc (length cs). 0 \<le> cv_flag cv (mem @ take (Suc k) (c # cs))) =
        (0 \<le> cv_flag cv (mem @ take (Suc 0) (c # cs)) \<and>
         (\<forall>k<length cs. 0 \<le> cv_flag cv (mem @ take (Suc (Suc k)) (c # cs))))"
    by (rule All_less_Suc2)
  then show ?thesis by (simp add: calls_succeed_def)
qed

text \<open>
  Claim C6. \<^verbatim>\<open>run(endtime)\<close> throws the argument error ``Endtime is before current
  simulation time'' whenever \<open>endtime\<close> is less than the current time and leaves the
  solver as it was; otherwise, when \<open>endtime\<close> is 0, it returns with the solver unchanged.
  Otherwise it configures the integrator if this is the first run, reinitialises it at
  the current time and state if the reinitialisation is pending, and then steps. When
  no call before the step fails, the calls made are exactly these, in this order, the
  pending flag is clear afterwards, a step that does not return success makes the run
  throw the system error ``CVODE iteration failed'' with the time unchanged, and a
  successful step sets the time to exactly \<open>endtime\<close>. When a call before the step fails,
  the run throws a system error and neither the time nor \<open>y\<close> changes.
\<close>

theorem run_outcomes:
  fixes cv :: cvode_lib and endtime :: real and s :: TetODE
  defines "t_now \<equiv> sd_time (statedef s)"
    and "cfg \<equiv> init_calls s @ reinit_calls s"
    and "r \<equiv> TetODE_run cv endtime s"
  shows "(endtime < t_now \<longrightarrow>
            r = (Inl (ArgErr ''Endtime is before current simulation time''), s)) \<and>
         (\<not> endtime < t_now \<and> endtime = 0 \<longrightarrow> r = (Inr (), s)) \<and>
         (\<not> endtime < t_now \<and> endtime \<noteq> 0 \<and> calls_succeed cv (cvode_mem_cvode s) cfg \<longrightarrow>
            cvode_mem_cvode (snd r) = cvode_mem_cvode s @ cfg @ [step_call endtime s] \<and>
            \<not> pReinit (snd r) \<and>
            (cv_flag cv (cvode_mem_cvode (snd r)) \<noteq> CV_SUCCESS \<longrightarrow>
               fst r = Inl (SysErr ''CVODE iteration failed'') \<and>
               sd_time (statedef (snd r)) = t_now) \<and>
            (cv_flag cv (cvode_mem_cvode (snd r)) = CV_SUCCESS \<longrightarrow>
               fst r = Inr () \<and> sd_time (statedef (snd r)) = endtime)) \<and>
         (\<not> endtime < t_now \<and> endtime \<noteq> 0 \<and> \<not> calls_succeed cv (cvode_mem_cvode s) cfg \<longrightarrow>
            fst r = Inl (SysErr ''SUNDIALS_ERROR: %s() failed with flag = %d'') \<and>
            sd_time (statedef (snd r)) = t_now \<and> y_cvode (snd r) = y_cvode s)"
  unfolding t_now_def cfg_def r_def
  by (simp add: TetODE_run_def throws_def returns_def and_then_def run_initialise_eq
      run_reinit_eq run_advance_eq Let_def init_calls_def reinit_calls_def
      calls_succeed_Cons calls_succeed_Nil step_call_def CV_SUCCESS_def)

theorem run_outcomes_witness:
  "TetODE_run ex_cv 2 (ex_solver\<lparr>pReinit := True\<rparr>) =
     (Inr (), ex_solver\<lparr>statedef := ex_sd\<lparr>sd_time := 2\<rparr>,
        cvode_mem_cvode := [CVodeReInit_call 1 [10, 20, 30, 40, 50],
                            CVode_call 2 [10, 20, 30, 40, 50] ex_graph],
        y_cvode := [1, 1, 1, 1, 1]\<rparr>) \<and>
   TetODE_run ex_cv (1 / 2) ex_solver =
     (Inl (ArgErr ''Endtime is before current simulation time''), ex_solver)"
proof -
  let ?s = "ex_solver\<lparr>pReinit := True\<rparr>"
  let ?r = "TetODE_run ex_cv 2 ?s"
  have a: "\<not> (2::real) < sd_time (statedef ?s)" "(2::real) \<noteq> 0"
    by (simp_all add: ex_solver_def)
  have cfg: "init_calls ?s @ reinit_calls ?s = [CVodeReInit_call 1 [10, 20, 30, 40, 50]]"
    by (simp add: init_calls_def reinit_calls_def ex_solver_def)
  have ok: "calls_succeed ex_cv (cvode_mem_cvode ?s) (init_calls ?s @ reinit_calls ?s)"
    by (simp add: calls_succeed_def ex_cv_def)
  have b: "(1 / 2 :: real) < sd_time (statedef ex_solver)"
    by (simp add: ex_solver_def)
  have sc: "step_call 2 ?s = CVode_call 2 [10, 20, 30, 40, 50] ex_graph"
    by (simp add: step_call_def ex_solver_def)
  from run_outcomes [of 2 ?s ex_cv] a ok
  have m: "cvode_mem_cvode (snd ?r) = cvode_mem_cvode ?s @ (init_calls ?s @ reinit_calls ?s) @ [step_call 2 ?s]"
    and f: "fst ?r = Inr ()" and t: "sd_time (statedef (snd ?r)) = 2" and p: "\<not> pReinit (snd ?r)"
    by (simp_all add: ex_cv_def CV_SUCCESS_def)
  have y: "snd ?r = ex_solver\<lparr>statedef := ex_sd\<lparr>sd_time := 2\<rparr>,
        cvode_mem_cvode := [CVodeReInit_call 1 [10, 20, 30, 40, 50],
                            CVode_call 2 [10, 20, 30, 40, 50] ex_graph],
        y_cvode := [1, 1, 1, 1, 1]\<rparr>"
    by (simp add: TetODE_run_def run_initialise_eq run_reinit_eq run_advance_eq and_then_def
        throws_def returns_def ex_solver_def ex_cv_def step_call_def Let_def ex_sd_def)
  from run_outcomes [of "1 / 2" ex_solver ex_cv] b
  have c: "TetODE_run ex_cv (1 / 2) ex_solver =
     (Inl (ArgErr ''Endtime is before current simulation time''), ex_solver)"
    by simp
  from f y c show ?thesis by (simp add: prod_eq_iff)
qed

lemma run_reinit_call_iff:
  "CVodeReInit_call t y \<in>
     set (drop (length (cvode_mem_cvode s)) (cvode_mem_cvode (snd (TetODE_run cv endtime s)))) \<longleftrightarrow>
   (pReinit s \<and> t = sd_time (statedef s) \<and> y = y_cvode s \<and>
    \<not> endtime < sd_time (statedef s) \<and> endtime \<noteq> 0 \<and>
    calls_succeed cv (cvode_mem_cvode s) (init_calls s))"
  by (auto simp: TetODE_run_def throws_def returns_def and_then_def run_initialise_eq
      run_reinit_eq run_advance_eq Let_def init_calls_def
      calls_succeed_Cons calls_succeed_Nil step_call_def)


lemma read_doubles_short:
  "length rest < n \<Longrightarrow>
     read_doubles n dst (rest, True) = (rest @ drop (length rest) dst, ([], False))"
  by (simp add: read_doubles_def)

lemma read_doubles_failed: "read_doubles n dst (rest, False) = (dst, (rest, False))"
  by (simp add: read_doubles_def)

lemma length_read_doubles:
  "n \<le> length dst \<Longrightarrow> length (fst (read_doubles n dst strm)) = length dst"
  by (cases strm) (simp add: read_doubles_def)








section \<open>Properties of the rate-constant and count operations\<close>

lemma usub32_pred:
  assumes "0 < a" and "a < 2 ^ 32"
  shows "usub32 a 1 = a - 1"
proof -
  obtain b where a: "a = Suc b" using assms(1) by (cases a) simp_all
  have "usub32 a 1 = (2 ^ 32 + b) mod 2 ^ 32" by (simp add: usub32_def a)
  also have "\<dots> = b mod 2 ^ 32" by (rule mod_add_self1)
  also have "\<dots> = b" using assms(2) a by simp
  finally show ?thesis using a by simp
qed

lemma u32_add_right: "u32 (a + u32 b) = u32 (a + b)"
  by (simp add: u32_def mod_add_right_eq)

lemma comp_markers_eq:
  "comp_markers sd comps c =
     (u32 (\<Sum>i<c. cd_countSpecs (compdef sd i) * countTets (comps ! i)),
      u32 (\<Sum>i<c. cd_countReacs (compdef sd i) * countTets (comps ! i) +
                   cd_countDiffs (compdef sd i) * countTets (comps ! i)))"
  unfolding comp_markers_def
proof (induction c)
  case 0
  show ?case by (simp add: u32_def)
next
  case (Suc c)
  then show ?case by (simp add: Let_def u32_add_left u32_add_right add.assoc)
qed

lemma length_rebind_slots: "length (rebind_slots first N rid c G) = length G"
  unfolding rebind_slots_def by (induction N) simp_all

lemma rebind_slots_no_wrap:
  assumes "first + N \<le> 2 ^ 32"
  shows "rebind_slots first N rid c G =
           fold (\<lambda>k G. G[first + k := set_ccst_where rid c (G ! (first + k))]) [0..<N] G"
proof -
  have "u32 (first + k) = first + k" if "k < N" for k
    using that assms by (intro u32_id) simp
  then show ?thesis unfolding rebind_slots_def by (intro fold_cong refl) simp
qed

lemma fold_rebind_nth:
  "first + N \<le> length G \<Longrightarrow>
     fold (\<lambda>k G. G[first + k := set_ccst_where rid c (G ! (first + k))]) [0..<N] G ! j =
       (if first \<le> j \<and> j < first + N then set_ccst_where rid c (G ! j) else G ! j)"
proof (induction N arbitrary: j)
  case 0
  then show ?case by auto
next
  case (Suc N)
  let ?F = "\<lambda>N. fold (\<lambda>k G. G[first + k := set_ccst_where rid c (G ! (first + k))]) [0..<N] G"
  have l: "length (?F N) = length G" by (induction N) simp_all
  have IH: "?F N ! j =
       (if first \<le> j \<and> j < first + N then set_ccst_where rid c (G ! j) else G ! j)" for j
    using Suc.IH [of j] Suc.prems by simp
  have step: "?F (Suc N) = (?F N)[first + N := set_ccst_where rid c (?F N ! (first + N))]"
    by simp
  show ?case
  proof (cases "j = first + N")
    case True
    with Suc.prems l show ?thesis unfolding step by (simp add: IH)
  next
    case False
    then show ?thesis unfolding step by (auto simp: IH)
  qed
qed

lemma rebind_slots_nth:
  "first + N \<le> length G \<Longrightarrow> length G < 2 ^ 32 \<Longrightarrow>
     rebind_slots first N rid c G ! j =
       (if first \<le> j \<and> j < first + N then set_ccst_where rid c (G ! j) else G ! j)"
  by (simp add: rebind_slots_no_wrap fold_rebind_nth)

lemma set_ccst_where_nth:
  "p < length rs \<Longrightarrow>
     set_ccst_where rid c rs ! p = (if r_idx (rs ! p) = rid then (rs ! p)\<lparr>ccst := c\<rparr> else rs ! p)"
  by (simp add: set_ccst_where_def)

lemma length_set_ccst_where: "length (set_ccst_where rid c rs) = length rs"
  by (simp add: set_ccst_where_def)

lemma rebind_by_setTetReacK:
  fixes s :: TetODE and tet :: Tet and tidx lridx :: nat
  defines "sd \<equiv> statedef s" and "G \<equiv> pSpec_matrixsub s"
    and "cdef \<equiv> tet_compdef tet"
  defines "cidx \<equiv> cd_gidx cdef"
  defines "tlidx \<equiv> comp_getTet_GtoL (pComps s ! cidx) tidx"
  defines "first \<equiv> (\<Sum>i<cidx. cd_countSpecs (compdef sd i) * countTets (pComps s ! i)) +
                    cd_countSpecs cdef * tlidx"
    and "rid \<equiv> u32 ((\<Sum>i<cidx. cd_countReacs (compdef sd i) * countTets (pComps s ! i) +
                               cd_countDiffs (compdef sd i) * countTets (pComps s ! i)) +
                     cd_countReacs cdef * tlidx + lridx)"
  assumes "tidx < length (pTets s)" and "ridx < sd_countReacs sd"
    and "pTets s ! tidx = Some tet"
    and "cd_reacG2L cdef ridx = Some lridx"
    and "first + cd_countSpecs cdef \<le> length G"
    and "length G < 2 ^ 32"
  shows "\<exists>G'. TetODE_setTetReacK N\<^sub>A tidx ridx kf s = (Inr (), s\<lparr>pSpec_matrixsub := G'\<rparr>) \<and>
           y_cvode (snd (TetODE_setTetReacK N\<^sub>A tidx ridx kf s)) = y_cvode s \<and>
           length G' = length G \<and>
           (\<forall>j<length G. length (G' ! j) = length (G ! j) \<and>
              (\<forall>p<length (G ! j). G' ! j ! p =
                 (if first \<le> j \<and> j < first + cd_countSpecs cdef \<and> r_idx (G ! j ! p) = rid
                  then (G ! j ! p)\<lparr>ccst := TetODE_ccst N\<^sub>A kf (tet_vol tet) (cd_reac_order cdef lridx)\<rparr>
                  else G ! j ! p)))"
proof -
  let ?c = "TetODE_ccst N\<^sub>A kf (tet_vol tet) (cd_reac_order cdef lridx)"
  let ?G' = "rebind_slots first (cd_countSpecs cdef) rid ?c G"
  have "first < 2 ^ 32" using assms(12,13) by simp
  then have f: "u32 first = first" by (rule u32_id)
  let ?S = "\<Sum>i<cidx. cd_countSpecs (compdef sd i) * countTets (pComps s ! i)"
  let ?R = "\<Sum>i<cidx. cd_countReacs (compdef sd i) * countTets (pComps s ! i) +
                        cd_countDiffs (compdef sd i) * countTets (pComps s ! i)"
  have e1: "u32 (u32 ?S + u32 (cd_countSpecs cdef * tlidx)) = u32 first"
    and e2: "u32 (u32 (u32 ?R + u32 (cd_countReacs cdef * tlidx)) + lridx) = rid"
    by (simp_all add: first_def rid_def u32_def mod_simps)
  have "TetODE_setTetReacK N\<^sub>A tidx ridx kf s =
             (Inr (), s\<lparr>pSpec_matrixsub :=
                rebind_slots (u32 (u32 ?S + u32 (cd_countSpecs cdef * tlidx)))
                  (cd_countSpecs cdef)
                  (u32 (u32 (u32 ?R + u32 (cd_countReacs cdef * tlidx)) + lridx)) ?c G\<rparr>)"
    using assms(8-11)
    by (simp add: TetODE_setTetReacK_def Let_def comp_markers_eq returns_def
        sd_def G_def cdef_def cidx_def tlidx_def)
  then have r: "TetODE_setTetReacK N\<^sub>A tidx ridx kf s =
             (Inr (), s\<lparr>pSpec_matrixsub :=
                rebind_slots (u32 first) (cd_countSpecs cdef) rid ?c G\<rparr>)"
    unfolding e1 e2 .
  have n: "?G' ! j = (if first \<le> j \<and> j < first + cd_countSpecs cdef
                      then set_ccst_where rid ?c (G ! j) else G ! j)" for j
    using assms(12,13) by (rule rebind_slots_nth)
  show ?thesis
    by (rule exI [of _ ?G'])
       (simp add: r f n length_rebind_slots length_set_ccst_where set_ccst_where_nth)
qed

lemma length_fold_update_at:
  "length (fold (\<lambda>i y. y[g i := f i]) [0..<m] y) = length y"
  by (induction m) simp_all

lemma fold_update_at_other:
  "\<forall>i<m. j \<noteq> g i \<Longrightarrow> fold (\<lambda>i y. y[g i := f i]) [0..<m] y ! j = y ! j"
proof (induction m)
  case 0
  then show ?case by simp
next
  case (Suc m)
  then have "g m \<noteq> j" by auto
  with Suc show ?case by simp
qed

lemma fold_update_at_hit:
  "inj_on g {..<m} \<Longrightarrow> i < m \<Longrightarrow> \<forall>i<m. g i < length y \<Longrightarrow>
     fold (\<lambda>i y. y[g i := f i]) [0..<m] y ! g i = f i"
proof (induction m)
  case 0
  then show ?case by simp
next
  case (Suc m)
  have inj: "inj_on g {..<m}"
    using Suc.prems(1) by (rule inj_on_subset) auto
  show ?case
  proof (cases "i = m")
    case True
    with Suc.prems(3) show ?thesis by (simp add: length_fold_update_at)
  next
    case False
    with Suc.prems(2) have i: "i < m" by simp
    then have "g i \<noteq> g m" using Suc.prems(1) by (auto simp: inj_on_def)
    moreover have "fold (\<lambda>i y. y[g i := f i]) [0..<m] y ! g i = f i"
      using inj i Suc.prems(3) by (intro Suc.IH) simp_all
    ultimately show ?thesis by simp
  qed
qed

lemma fold_add_nth_sum:
  "fold (\<lambda>i count. count + h i) [0..<m] (a::real) = a + (\<Sum>i<m. h i)"
  by (induction m) simp_all

lemma sum_list_tet_vol:
  "(\<Sum>t\<leftarrow>ts. tet_vol t) = (\<Sum>i<length ts. tet_vol (ts ! i))"
  by (simp add: sum_list_sum_nth atLeast0LessThan)

lemma distribute_by_setCompCount:
  fixes s :: TetODE and cidx sidx slidx :: nat and n :: real
  defines "sd \<equiv> statedef s"
  defines "cdef \<equiv> compdef sd cidx" and "localcomp \<equiv> pComps s ! cidx"
  defines "N \<equiv> cd_countSpecs cdef" and "ntets \<equiv> countTets localcomp"
    and "base \<equiv> (\<Sum>m<cidx. cd_countSpecs (compdef sd m) * countTets (pComps s ! m))"
  defines "slot \<equiv> \<lambda>i. base + (i * N + slidx)"
  assumes cidx: "cidx < countComps sd" and sidx: "sidx < sd_countSpecs sd"
    and g2l: "cd_specG2L cdef sidx = Some slidx" and slidx: "slidx < N"
    and fit: "base + N * ntets \<le> pSpecs_tot s"
    and len: "pSpecs_tot s = length (y_cvode s)" and tot: "pSpecs_tot s < 2 ^ 32"
    and vol: "comp_vol localcomp = (\<Sum>t\<leftarrow>comp_tets localcomp. tet_vol t)"
    and vol0: "comp_vol localcomp \<noteq> 0"
  shows "\<exists>y'. TetODE_setCompCount cidx sidx n s = (Inr (), s\<lparr>y_cvode := y', pReinit := True\<rparr>) \<and>
           length y' = length (y_cvode s) \<and>
           (\<forall>i<ntets. y' ! slot i = n * (tet_vol (getTet localcomp i) / comp_vol localcomp)) \<and>
           (\<forall>j<length (y_cvode s). (\<forall>i<ntets. j \<noteq> slot i) \<longrightarrow> y' ! j = y_cvode s ! j) \<and>
           TetODE_getCompCount cidx sidx (s\<lparr>y_cvode := y', pReinit := True\<rparr>) = Inr n"
proof -
  let ?f = "\<lambda>i. n * (tet_vol (getTet localcomp i) / comp_vol localcomp)"
  let ?y' = "fold (\<lambda>i y. y[slot i := ?f i]) [0..<ntets] (y_cvode s)"
  have nt: "0 < ntets"
  proof (rule ccontr)
    assume "\<not> 0 < ntets"
    then have "comp_tets localcomp = []" by (simp add: ntets_def countTets_def)
    with vol vol0 show False by simp
  qed
  have N0: "0 < N" using slidx by simp
  have "ntets \<le> N * ntets" using N0 by simp
  also have "\<dots> \<le> base + N * ntets" by simp
  also have "\<dots> \<le> pSpecs_tot s" by (rule fit)
  finally have nt32: "ntets < 2 ^ 32" using tot by simp
  have last: "base + ((ntets - 1) * N + slidx) < pSpecs_tot s"
  proof -
    have "base + N * (ntets - 1) + slidx < pSpecs_tot s"
      using _ slidx fit by (rule slot_in_range) (use nt in simp)
    then show ?thesis by (simp add: mult.commute add.assoc)
  qed
  with tot have a1: "(ntets - 1) * N < 2 ^ 32" and a2: "(ntets - 1) * N + slidx < 2 ^ 32"
    and a3: "base + ((ntets - 1) * N + slidx) < 2 ^ 32" by simp_all
  have assert_ok: "u32 (base + u32 (u32 (usub32 ntets 1 * N) + slidx)) < pSpecs_tot s"
    unfolding usub32_pred [OF nt nt32] u32_id [OF a1] u32_id [OF a2] u32_id [OF a3]
    by (rule last)
  have in_range: "\<forall>i<ntets. slot i < length (y_cvode s)"
  proof (intro allI impI)
    fix i assume "i < ntets"
    then have "base + N * i + slidx < pSpecs_tot s" using slidx fit by (rule slot_in_range)
    then show "slot i < length (y_cvode s)"
      using len by (simp add: slot_def mult.commute add.assoc)
  qed
  have inj: "inj_on slot {..<ntets}"
    using N0 by (auto simp: inj_on_def slot_def)
  have set_eq: "TetODE_setCompCount cidx sidx n s = (Inr (), s\<lparr>y_cvode := ?y', pReinit := True\<rparr>)"
    using cidx sidx g2l assert_ok
    by (simp add: TetODE_setCompCount_def Let_def returns_def spec_base_of_sum
        sd_def cdef_def localcomp_def N_def ntets_def base_def slot_def)
  have hit: "\<forall>i<ntets. ?y' ! slot i = ?f i"
  proof (intro allI impI)
    fix i assume "i < ntets"
    with inj show "?y' ! slot i = ?f i" using in_range by (rule fold_update_at_hit)
  qed
  have other: "\<forall>j<length (y_cvode s). (\<forall>i<ntets. j \<noteq> slot i) \<longrightarrow> ?y' ! j = y_cvode s ! j"
  proof (intro allI impI)
    fix j assume "\<forall>i<ntets. j \<noteq> slot i"
    then show "?y' ! j = y_cvode s ! j" by (rule fold_update_at_other)
  qed
  have "(\<Sum>i<ntets. ?y' ! slot i) = (\<Sum>i<ntets. ?f i)"
    using hit by simp
  also have "\<dots> = n * ((\<Sum>i<ntets. tet_vol (getTet localcomp i)) / comp_vol localcomp)"
    by (simp add: sum_distrib_left sum_divide_distrib)
  also have "(\<Sum>i<ntets. tet_vol (getTet localcomp i)) = comp_vol localcomp"
    by (simp add: vol sum_list_tet_vol ntets_def countTets_def getTet_def)
  finally have total: "(\<Sum>i<ntets. ?y' ! slot i) = n" using vol0 by simp
  have get_eq: "TetODE_getCompCount cidx sidx (s\<lparr>y_cvode := ?y', pReinit := True\<rparr>) = Inr n"
    using cidx sidx g2l assert_ok total
    by (simp add: TetODE_getCompCount_def Let_def spec_base_of_sum fold_add_nth_sum
        sd_def cdef_def localcomp_def N_def ntets_def base_def slot_def)
  show ?thesis
    by (rule exI [of _ ?y'])
       (use set_eq hit other get_eq in \<open>simp add: length_fold_update_at\<close>)
qed

lemma and_then_pReinit:
  assumes "pReinit (snd r) = b" and "\<And>s. pReinit (snd (f s)) = pReinit s"
  shows "pReinit (snd (and_then r f)) = b"
  using assms by (cases r) (auto simp: and_then_def split: sum.splits)

lemma setTetReacK_pReinit:
  "pReinit (snd (TetODE_setTetReacK N\<^sub>A tidx ridx kf s)) = pReinit s"
  by (simp add: TetODE_setTetReacK_def throws_def returns_def Let_def
      split: option.splits prod.splits)

lemma setCompReacK_loop_pReinit:
  "pReinit (snd (setCompReacK_loop N\<^sub>A tets ridx kf s)) = pReinit s"
proof (induction tets arbitrary: s)
  case Nil
  then show ?case by (simp add: returns_def)
next
  case (Cons tet tets)
  show ?case
    by (simp del: and_then_def add: and_then_pReinit [OF setTetReacK_pReinit Cons.IH])
qed

lemma setCompReacK_pReinit:
  "pReinit (snd (TetODE_setCompReacK N\<^sub>A cidx ridx kf s)) = pReinit s"
  by (simp add: TetODE_setCompReacK_def throws_def setCompReacK_loop_pReinit)

lemma rebind_adjacent_pReinit:
  "pReinit (snd (rebind_adjacent sd comps tp n rid c s)) = pReinit s"
  by (simp add: rebind_adjacent_def throws_def returns_def Let_def split: option.splits)

lemma setTriSReacK_pReinit:
  "pReinit (snd (TetODE_setTriSReacK N\<^sub>A tidx ridx kf s)) = pReinit s"
proof -
  have a: "pReinit (snd (and_then
             (if b1 then rebind_adjacent sd1 c1 t1 n1 rid x s1 else returns s1)
             (\<lambda>s. if b2 then rebind_adjacent (sd2 s) (c2 s) t2 n2 rid x s else returns s)))
           = pReinit s1" for b1 b2 sd1 c1 t1 n1 rid x s1 sd2 c2 t2 n2
    by (rule and_then_pReinit) (simp_all add: rebind_adjacent_pReinit returns_def)
  show ?thesis
    by (simp add: TetODE_setTriSReacK_def throws_def Let_def a
        split: option.splits sum.splits prod.splits)
qed

lemma setPatchSReacK_loop_pReinit:
  "pReinit (snd (setPatchSReacK_loop N\<^sub>A tris ridx kf s)) = pReinit s"
proof (induction tris arbitrary: s)
  case Nil
  then show ?case by (simp add: returns_def)
next
  case (Cons tri tris)
  show ?case
    by (simp add: and_then_pReinit [OF setTriSReacK_pReinit Cons.IH])
qed

lemma setPatchSReacK_pReinit:
  "pReinit (snd (TetODE_setPatchSReacK N\<^sub>A pidx ridx kf s)) = pReinit s"
  by (simp add: TetODE_setPatchSReacK_def throws_def setPatchSReacK_loop_pReinit)

lemma setCompCount_pReinit:
  "fst (TetODE_setCompCount cidx sidx n s) = Inr () \<Longrightarrow>
     pReinit (snd (TetODE_setCompCount cidx sidx n s))"
  by (simp add: TetODE_setCompCount_def throws_def returns_def Let_def
      split: option.splits if_splits)

lemma setPatchCount_pReinit:
  "fst (TetODE_setPatchCount pidx sidx n s) = Inr () \<Longrightarrow>
     pReinit (snd (TetODE_setPatchCount pidx sidx n s))"
  by (simp add: TetODE_setPatchCount_def throws_def returns_def Let_def
      split: option.splits if_splits)

lemma setTetCount_pReinit:
  "fst (TetODE_setTetCount tidx sidx n s) = Inr () \<Longrightarrow>
     pReinit (snd (TetODE_setTetCount tidx sidx n s))"
  by (auto simp: TetODE_setTetCount_def throws_def returns_def Let_def
      split: option.splits if_splits)

lemma setTriCount_pReinit:
  "fst (TetODE_setTriCount tidx sidx n s) = Inr () \<Longrightarrow>
     pReinit (snd (TetODE_setTriCount tidx sidx n s))"
  by (auto simp: TetODE_setTriCount_def throws_def returns_def Let_def
      split: option.splits if_splits)

lemma setTetReacK_returns:
  "tidx < length (pTets s) \<Longrightarrow> ridx < sd_countReacs (statedef s) \<Longrightarrow>
   pTets s ! tidx = Some tet \<Longrightarrow> cd_reacG2L (tet_compdef tet) ridx = Some lridx \<Longrightarrow>
   fst (TetODE_setTetReacK N\<^sub>A tidx ridx kf s) = Inr ()"
  by (simp add: TetODE_setTetReacK_def returns_def Let_def split: prod.splits)

lemma setTetCount_returns:
  "sidx < sd_countSpecs (statedef s) \<Longrightarrow> tidx < length (pTets s) \<Longrightarrow>
   pTets s ! tidx = Some tet \<Longrightarrow> cd_specG2L (tet_compdef tet) sidx = Some lsidx \<Longrightarrow>
   u32 (u32 (spec_base_of (statedef s) (pComps s) (cd_gidx (tet_compdef tet)) +
        u32 (cd_countSpecs (tet_compdef tet) *
             comp_getTet_GtoL (pComps s ! cd_gidx (tet_compdef tet)) tidx)) + lsidx)
     < pSpecs_tot s \<Longrightarrow>
   fst (TetODE_setTetCount tidx sidx n s) = Inr ()"
  by (simp add: TetODE_setTetCount_def returns_def Let_def)

lemma ex_solver_tets:
  "pTets ex_solver = [Some ex_tet0, Some ex_tet1]" "sd_countReacs (statedef ex_solver) = 1"
  "sd_countSpecs (statedef ex_solver) = 3" "pSpecs_tot ex_solver = 5"
  "pComps ex_solver = [ex_comp]" "\<not> pReinit ex_solver"
  "y_cvode ex_solver = [10, 20, 30, 40, 50]" "pSpec_matrixsub ex_solver = ex_graph"
  "sd_compdefs (statedef ex_solver) = [ex_cdef]"
  by (simp_all add: ex_solver_def ex_sd_def)

lemma ex_tets:
  "tet_compdef ex_tet0 = ex_cdef" "tet_compdef ex_tet1 = ex_cdef"
  "tet_vol ex_tet0 = 2" "tet_vol ex_tet1 = 6"
  by (simp_all add: ex_tet0_def ex_tet1_def)

lemma ex_cdef_simps:
  "cd_gidx ex_cdef = 0" "cd_countSpecs ex_cdef = 2" "cd_countReacs ex_cdef = 1"
  "cd_countDiffs ex_cdef = 1" "cd_specG2L ex_cdef 0 = Some 0" "cd_reacG2L ex_cdef 0 = Some 0"
  "cd_reac_order ex_cdef 0 = 2"
  by (simp_all add: ex_cdef_def)

lemma ex_comp_simps:
  "comp_def ex_comp = ex_cdef" "comp_tets ex_comp = [ex_tet0, ex_tet1]" "comp_vol ex_comp = 8"
  "comp_getTet_GtoL ex_comp g = g"
  by (simp_all add: ex_comp_def)

text \<open>
  Claim C5, as the code has it. A count mutation that returns (\<^verbatim>\<open>_setCompCount\<close>,
  \<^verbatim>\<open>_setPatchCount\<close>, \<^verbatim>\<open>_setTetCount\<close>, \<^verbatim>\<open>_setTriCount\<close>) leaves the pending-reinit flag set,
  and a run whose earlier calls succeed then reinitialises the integrator at the current
  time and state. A rate-constant mutation (\<^verbatim>\<open>_setTetReacK\<close>, \<^verbatim>\<open>_setTriSReacK\<close>,
  \<^verbatim>\<open>_setCompReacK\<close>, \<^verbatim>\<open>_setPatchSReacK\<close>) leaves the flag as it was.
\<close>

theorem reinit_flag_after_mutation:
  "(fst (TetODE_setCompCount cidx sidx n s) = Inr () \<longrightarrow>
      pReinit (snd (TetODE_setCompCount cidx sidx n s))) \<and>
   (fst (TetODE_setPatchCount pidx sidx n s) = Inr () \<longrightarrow>
      pReinit (snd (TetODE_setPatchCount pidx sidx n s))) \<and>
   (fst (TetODE_setTetCount tidx sidx n s) = Inr () \<longrightarrow>
      pReinit (snd (TetODE_setTetCount tidx sidx n s))) \<and>
   (fst (TetODE_setTriCount tidx sidx n s) = Inr () \<longrightarrow>
      pReinit (snd (TetODE_setTriCount tidx sidx n s))) \<and>
   (pReinit s \<and> \<not> endtime < sd_time (statedef s) \<and> endtime \<noteq> 0 \<and>
    calls_succeed cv (cvode_mem_cvode s) (init_calls s) \<longrightarrow>
      CVodeReInit_call (sd_time (statedef s)) (y_cvode s) \<in>
        set (drop (length (cvode_mem_cvode s))
               (cvode_mem_cvode (snd (TetODE_run cv endtime s))))) \<and>
   pReinit (snd (TetODE_setTetReacK N\<^sub>A tidx ridx kf s)) = pReinit s \<and>
   pReinit (snd (TetODE_setTriSReacK N\<^sub>A tidx ridx kf s)) = pReinit s \<and>
   pReinit (snd (TetODE_setCompReacK N\<^sub>A cidx ridx kf s)) = pReinit s \<and>
   pReinit (snd (TetODE_setPatchSReacK N\<^sub>A pidx ridx kf s)) = pReinit s"
  by (simp add: setCompCount_pReinit setPatchCount_pReinit setTetCount_pReinit
      setTriCount_pReinit setTetReacK_pReinit setTriSReacK_pReinit setCompReacK_pReinit
      setPatchSReacK_pReinit run_reinit_call_iff)

text \<open>
  The claim as it is written fails: on the small configuration, whose flag is clear
  after a run, \<^verbatim>\<open>_setTetReacK\<close> returns and the flag is still clear.
\<close>

theorem setTetReacK_leaves_reinit_flag_clear:
  "fst (TetODE_setTetReacK 602214179000000000000000 0 0 5 ex_solver) = Inr () \<and>
   \<not> pReinit (snd (TetODE_setTetReacK 602214179000000000000000 0 0 5 ex_solver))"
proof -
  have "fst (TetODE_setTetReacK 602214179000000000000000 0 0 5 ex_solver) = Inr ()"
    by (rule setTetReacK_returns [where tet = ex_tet0 and lridx = 0])
       (simp_all add: ex_solver_tets ex_tets ex_cdef_simps)
  then show ?thesis by (simp add: setTetReacK_pReinit ex_solver_tets)
qed

theorem reinit_flag_after_mutation_witness:
  "pReinit (snd (TetODE_setTetCount 1 0 7 ex_solver)) \<and>
   \<not> pReinit (snd (TetODE_setTetReacK 602214179000000000000000 1 0 5 ex_solver))"
proof -
  have a: "fst (TetODE_setTetCount 1 0 7 ex_solver) = Inr ()"
    by (rule setTetCount_returns [where tet = ex_tet1 and lsidx = 0])
       (simp_all add: ex_solver_tets ex_tets ex_cdef_simps ex_comp_simps u32_def
          spec_base_of_def)
  from reinit_flag_after_mutation
    [where tidx = 1 and sidx = 0 and n = 7 and s = ex_solver and ridx = 0 and kf = 5
       and N\<^sub>A = 602214179000000000000000] a
  show ?thesis by (simp add: ex_solver_tets)
qed


text \<open>
  Claim C7. For a compartment \<open>cidx\<close> and a species defined in it with local index
  \<open>slidx\<close>, in a solver whose state vector holds the compartment's block and whose
  compartment volume is the non-zero sum of its tets' volumes, \<^verbatim>\<open>_setCompCount\<close> returns,
  sets the pending-reinit flag and changes nothing but \<open>y\<close>; the slot of the species in
  each tet \<open>i\<close> of the compartment holds \<open>n * (vol(tet i) / vol(compartment))\<close>, every
  other slot keeps its value, and \<^verbatim>\<open>_getCompCount\<close> on the result returns \<open>n\<close>.
\<close>

theorem setCompCount_then_getCompCount:
  assumes "cidx < countComps (statedef s)" and "sidx < sd_countSpecs (statedef s)"
    and "cd_specG2L (compdef (statedef s) cidx) sidx = Some slidx"
    and "slidx < cd_countSpecs (compdef (statedef s) cidx)"
    and "comp_slot s cidx (countTets (pComps s ! cidx)) 0 \<le> pSpecs_tot s"
    and "pSpecs_tot s = length (y_cvode s)" and "pSpecs_tot s < 2 ^ 32"
    and "comp_vol (pComps s ! cidx) = (\<Sum>t\<leftarrow>comp_tets (pComps s ! cidx). tet_vol t)"
    and "comp_vol (pComps s ! cidx) \<noteq> 0"
  shows "\<exists>y'. TetODE_setCompCount cidx sidx n s = (Inr (), s\<lparr>y_cvode := y', pReinit := True\<rparr>) \<and>
           length y' = length (y_cvode s) \<and>
           (\<forall>i<countTets (pComps s ! cidx). y' ! comp_slot s cidx i slidx =
              n * (tet_vol (getTet (pComps s ! cidx) i) / comp_vol (pComps s ! cidx))) \<and>
           (\<forall>j<length (y_cvode s).
              (\<forall>i<countTets (pComps s ! cidx). j \<noteq> comp_slot s cidx i slidx) \<longrightarrow>
              y' ! j = y_cvode s ! j) \<and>
           TetODE_getCompCount cidx sidx (s\<lparr>y_cvode := y', pReinit := True\<rparr>) = Inr n"
proof -
  have fit: "(\<Sum>m<cidx. cd_countSpecs (compdef (statedef s) m) * countTets (pComps s ! m)) +
      cd_countSpecs (compdef (statedef s) cidx) * countTets (pComps s ! cidx) \<le> pSpecs_tot s"
    using assms(5) by (simp add: comp_slot_def mult.commute)
  from distribute_by_setCompCount [OF assms(1-4) fit assms(6-9), of n]
  show ?thesis unfolding comp_slot_def .
qed

theorem setCompCount_then_getCompCount_witness:
  "\<exists>y'. TetODE_setCompCount 0 0 8 ex_solver =
          (Inr (), ex_solver\<lparr>y_cvode := y', pReinit := True\<rparr>) \<and>
        y' ! 0 = 2 \<and> y' ! 2 = 6 \<and> y' ! 1 = 20 \<and>
        TetODE_getCompCount 0 0 (ex_solver\<lparr>y_cvode := y', pReinit := True\<rparr>) = Inr 8"
proof -
  have pc: "pComps ex_solver ! 0 = ex_comp" by (simp add: ex_solver_tets)
  have nt: "countTets ex_comp = 2" by (simp add: countTets_def ex_comp_simps)
  have sl: "comp_slot ex_solver 0 i 0 = i * 2" for i
    by (simp add: comp_slot_def compdef_def ex_solver_tets ex_cdef_simps)
  have v: "tet_vol (getTet ex_comp 0) / comp_vol ex_comp = 1 / 4"
    "tet_vol (getTet ex_comp 1) / comp_vol ex_comp = 3 / 4"
    by (simp_all add: getTet_def ex_comp_simps ex_tets)
  have h1: "0 < countComps (statedef ex_solver)"
    and h2: "0 < sd_countSpecs (statedef ex_solver)"
    and h3: "cd_specG2L (compdef (statedef ex_solver) 0) 0 = Some 0"
    and h4: "0 < cd_countSpecs (compdef (statedef ex_solver) 0)"
    and h6: "pSpecs_tot ex_solver = length (y_cvode ex_solver)"
    and h7: "pSpecs_tot ex_solver < 2 ^ 32"
    by (simp_all add: countComps_def compdef_def ex_solver_tets ex_cdef_simps)
  have h5: "comp_slot ex_solver 0 (countTets (pComps ex_solver ! 0)) 0 \<le> pSpecs_tot ex_solver"
    by (simp add: pc nt sl ex_solver_tets(4))
  have h8: "comp_vol (pComps ex_solver ! 0) = (\<Sum>t\<leftarrow>comp_tets (pComps ex_solver ! 0). tet_vol t)"
    and h9: "comp_vol (pComps ex_solver ! 0) \<noteq> 0"
    by (simp_all add: pc ex_comp_simps ex_tets)
  from setCompCount_then_getCompCount [OF h1 h2 h3 h4 h5 h6 h7 h8 h9, of 8]
  obtain y' where A: "TetODE_setCompCount 0 0 8 ex_solver =
          (Inr (), ex_solver\<lparr>y_cvode := y', pReinit := True\<rparr>)"
    and B: "\<forall>i<2. y' ! (i * 2) = 8 * (tet_vol (getTet ex_comp i) / comp_vol ex_comp)"
    and C: "\<forall>j<5. (\<forall>i<2. j \<noteq> i * 2) \<longrightarrow> y' ! j = [10, 20, 30, 40, 50] ! j"
    and D: "TetODE_getCompCount 0 0 (ex_solver\<lparr>y_cvode := y', pReinit := True\<rparr>) = Inr 8"
    unfolding pc nt sl ex_solver_tets(7) by auto
  from B have "y' ! (0 * 2) = 8 * (tet_vol (getTet ex_comp 0) / comp_vol ex_comp)"
    by (rule allE [of _ 0]) simp
  then have y0: "y' ! 0 = 2" unfolding v by simp
  from B have "y' ! (1 * 2) = 8 * (tet_vol (getTet ex_comp 1) / comp_vol ex_comp)"
    by (rule allE [of _ 1]) simp
  then have y2: "y' ! 2 = 6" unfolding v by simp
  have "\<forall>i<2. (1::nat) \<noteq> i * 2" by presburger
  with C have y1: "y' ! 1 = 20" by (auto elim!: allE [of _ 1])
  from A y0 y2 y1 D show ?thesis by blast
qed

text \<open>
  Claim C8. For a tet \<open>tidx\<close> assigned to a compartment and a reaction defined in the
  compartment with local index \<open>lridx\<close>, when the block of the tet lies inside the graph
  (whose length, the \<^verbatim>\<open>uint\<close> \<^verbatim>\<open>pSpecs_tot\<close>, is below \<open>2 ^ 32\<close>), \<^verbatim>\<open>_setTetReacK\<close> returns
  and changes nothing but the graph (so \<open>y\<close> is as before). The graph keeps its shape; a
  process in a slot of the tet's block whose id is the id of the reaction at this tet,
  reduced modulo \<open>2 ^ 32\<close> as the \<^verbatim>\<open>uint\<close> the code compares it with, gets the coefficient
  \<^verbatim>\<open>_ccst(kf, vol(tet), order)\<close>, and every other process, in these slots or elsewhere, is
  unchanged. No bound is assumed on the id.
\<close>

theorem setTetReacK_rebinds:
  assumes "tidx < length (pTets s)" and "ridx < sd_countReacs (statedef s)"
    and "pTets s ! tidx = Some tet"
    and "cd_reacG2L (tet_compdef tet) ridx = Some lridx"
    and "tet_first_slot s tet tidx + cd_countSpecs (tet_compdef tet) \<le> length (pSpec_matrixsub s)"
    and "length (pSpec_matrixsub s) < 2 ^ 32"
  shows "\<exists>G'. TetODE_setTetReacK N\<^sub>A tidx ridx kf s = (Inr (), s\<lparr>pSpec_matrixsub := G'\<rparr>) \<and>
           y_cvode (snd (TetODE_setTetReacK N\<^sub>A tidx ridx kf s)) = y_cvode s \<and>
           length G' = length (pSpec_matrixsub s) \<and>
           (\<forall>j<length (pSpec_matrixsub s).
              length (G' ! j) = length (pSpec_matrixsub s ! j) \<and>
              (\<forall>p<length (pSpec_matrixsub s ! j). G' ! j ! p =
                 (if tet_first_slot s tet tidx \<le> j \<and>
                     j < tet_first_slot s tet tidx + cd_countSpecs (tet_compdef tet) \<and>
                     r_idx (pSpec_matrixsub s ! j ! p) = u32 (tet_reac_id s tet tidx lridx)
                  then (pSpec_matrixsub s ! j ! p)
                         \<lparr>ccst := TetODE_ccst N\<^sub>A kf (tet_vol tet)
                                    (cd_reac_order (tet_compdef tet) lridx)\<rparr>
                  else pSpec_matrixsub s ! j ! p)))"
  using rebind_by_setTetReacK [OF assms(1-4), of N\<^sub>A kf] assms(5,6)
  unfolding tet_first_slot_def tet_reac_id_def Let_def by simp


theorem setTetReacK_rebinds_witness:
  "\<exists>G'. TetODE_setTetReacK 602214179000000000000000 0 0 5 ex_solver =
          (Inr (), ex_solver\<lparr>pSpec_matrixsub := G'\<rparr>) \<and>
        ccst (G' ! 0 ! 0) = TetODE_ccst 602214179000000000000000 5 2 2 \<and>
        G' ! 0 ! 1 = ex_graph ! 0 ! 1 \<and> G' ! 2 ! 0 = ex_graph ! 2 ! 0"
proof -
  have fs: "tet_first_slot ex_solver ex_tet0 0 = 0"
    and rid: "tet_reac_id ex_solver ex_tet0 0 0 = 0"
    by (simp_all add: tet_first_slot_def tet_reac_id_def ex_tets ex_cdef_simps ex_solver_tets
        ex_comp_simps)
  have lg: "length ex_graph = 5" by (simp add: ex_graph_def)
  have h1: "0 < length (pTets ex_solver)"
    and h2: "0 < sd_countReacs (statedef ex_solver)"
    and h3: "pTets ex_solver ! 0 = Some ex_tet0"
    and h4: "cd_reacG2L (tet_compdef ex_tet0) 0 = Some 0"
    and h5: "tet_first_slot ex_solver ex_tet0 0 + cd_countSpecs (tet_compdef ex_tet0)
               \<le> length (pSpec_matrixsub ex_solver)"
    and h6: "length (pSpec_matrixsub ex_solver) < 2 ^ 32"
    by (simp_all add: fs lg ex_solver_tets ex_tets ex_cdef_simps)
  have u0: "u32 0 = 0" by (simp add: u32_def)
  let ?c = "TetODE_ccst 602214179000000000000000 5 2 2"
  from setTetReacK_rebinds [OF h1 h2 h3 h4 h5 h6, of "602214179000000000000000" 5]
  obtain G' where A: "TetODE_setTetReacK 602214179000000000000000 0 0 5 ex_solver =
          (Inr (), ex_solver\<lparr>pSpec_matrixsub := G'\<rparr>)"
    and E: "\<forall>j<5. length (G' ! j) = length (ex_graph ! j) \<and>
              (\<forall>p<length (ex_graph ! j). G' ! j ! p =
                 (if 0 \<le> j \<and> j < 0 + 2 \<and> r_idx (ex_graph ! j ! p) = 0
                  then (ex_graph ! j ! p)\<lparr>ccst := ?c\<rparr>
                  else ex_graph ! j ! p))"
    unfolding fs rid u0 ex_solver_tets(8) lg ex_tets ex_cdef_simps by auto
  have g00: "r_idx (ex_graph ! 0 ! 0) = 0" and g01: "r_idx (ex_graph ! 0 ! Suc 0) = 2"
    and l0: "length (ex_graph ! 0) = 2" and l2: "length (ex_graph ! 2) = 2"
    by (simp_all add: ex_graph_def)
  from E have E0: "\<forall>p<length (ex_graph ! 0). G' ! 0 ! p =
                 (if r_idx (ex_graph ! 0 ! p) = 0 then (ex_graph ! 0 ! p)\<lparr>ccst := ?c\<rparr>
                  else ex_graph ! 0 ! p)"
    by (auto elim!: allE [of _ 0])
  from E have E2: "\<forall>p<length (ex_graph ! 2). G' ! 2 ! p = ex_graph ! 2 ! p"
    by (auto elim!: allE [of _ 2])
  from E0 have "G' ! 0 ! 0 = (ex_graph ! 0 ! 0)\<lparr>ccst := ?c\<rparr>"
    by (auto simp: l0 g00 elim!: allE [of _ 0])
  then have c0: "ccst (G' ! 0 ! 0) = ?c" by simp
  from E0 have c1: "G' ! 0 ! 1 = ex_graph ! 0 ! 1"
    by (auto simp: l0 g01 elim!: allE [of _ 1])
  from E2 have c2: "G' ! 2 ! 0 = ex_graph ! 2 ! 0"
    by (auto simp: l2 elim!: allE [of _ 0])
  from A c0 c1 c2 show ?thesis by blast
qed


end
